theory Spec2Isabelle
  imports Complex_Main
begin

section \<open>Errors\<close>

text \<open>
  Every failure of the Python sources is a \<open>ValueError\<close> told apart by its message, an
  arithmetic exception of the interpreter, or a failure to open the data file. The
  message is kept as a tag, one per \<open>raise\<close> site; \<open>MathDomainError\<close> is the
  \<open>ValueError\<close> that \<open>math.sqrt\<close> raises on a negative argument and
  \<open>InvalidIsoFormat\<close> the one that \<open>datetime.fromisoformat\<close> raises.

  Python floats are modelled as the real numbers: \<open>+\<close>, \<open>-\<close>, \<open>*\<close>, \<open>/\<close> and \<open>math.sqrt\<close>
  are exact, there is no rounding, overflow, infinity or NaN. Division by zero raises in
  Python, so every division whose divisor is not already known to be non-zero at that
  point of the source is guarded in the model.
\<close>

datatype value_error =
    PricesNotPositive
  | LiquidityNotPositive
  | PlNotBelowPu
  | P0NotStrictlyWithin
  | InitialUsdNotPositive
  | InvalidValuePerL
  | EthInPoolNotPositive
  | PriceNotStrictlyWithin
  | DeltaSqrtInvNotPositive
  | DeltaSqrtNegative
  | MathDomainError
  | NoRowsLoaded
  | NotEnoughDataPoints
  | InvalidRangeDenom
  | InvalidIsoFormat

datatype error = ValueError value_error | ZeroDivisionError | OSError

section \<open>v3\_math.py\<close>

text \<open>
  \<open>amounts_from_L\<close>: the three guards in source order, then the three price regimes.
  After the guards \<open>Pl\<close> and \<open>Pu\<close> are positive, so \<open>math.sqrt\<close> is defined and the
  divisors \<open>sqrtP\<close>, \<open>sqrtPa\<close>, \<open>sqrtPb\<close> are non-zero.
\<close>

definition amounts_from_L :: "real \<Rightarrow> real \<Rightarrow> real \<Rightarrow> real \<Rightarrow> error + (real \<times> real)" where
  "amounts_from_L P Pl Pu L =
     (if P \<le> 0 \<or> Pl \<le> 0 \<or> Pu \<le> 0 then Inl (ValueError PricesNotPositive)
      else if L \<le> 0 then Inl (ValueError LiquidityNotPositive)
      else if Pl \<ge> Pu then Inl (ValueError PlNotBelowPu)
      else
        let sqrtP = sqrt P; sqrtPa = sqrt Pl; sqrtPb = sqrt Pu in
        if P \<le> Pl then Inr (L * (1 / sqrtPa - 1 / sqrtPb), 0)
        else if P < Pu then Inr (L * (1 / sqrtP - 1 / sqrtPb), L * (sqrtP - sqrtPa))
        else Inr (0, L * (sqrtPb - sqrtPa)))"

definition lp_value :: "real \<Rightarrow> real \<Rightarrow> real \<Rightarrow> real \<Rightarrow> error + real" where
  "lp_value P Pl Pu L =
     (case amounts_from_L P Pl Pu L of
        Inl e \<Rightarrow> Inl e
      | Inr (x, y) \<Rightarrow> Inr (x * P + y))"

text \<open>
  \<open>L_from_initial_usd\<close>: the range and amount guards, the three square roots in source
  order (each raises on a negative argument), the degenerate-denominator guard, the
  quotient. Past the range guard and the square roots \<open>Pu\<close> is positive, so the
  divisor \<open>sqrtPb\<close> is non-zero; \<open>value_per_L\<close> is positive where it divides.
\<close>

definition value_per_L :: "real \<Rightarrow> real \<Rightarrow> real \<Rightarrow> real" where
  "value_per_L P0 Pl Pu = 2 * sqrt P0 - P0 / sqrt Pu - sqrt Pl"

definition L_from_initial_usd :: "real \<Rightarrow> real \<Rightarrow> real \<Rightarrow> real \<Rightarrow> error + real" where
  "L_from_initial_usd P0 Pl Pu initial_usd =
     (if \<not> (Pl < P0 \<and> P0 < Pu) then Inl (ValueError P0NotStrictlyWithin)
      else if initial_usd \<le> 0 then Inl (ValueError InitialUsdNotPositive)
      else if P0 < 0 then Inl (ValueError MathDomainError)
      else if Pl < 0 then Inl (ValueError MathDomainError)
      else if Pu < 0 then Inl (ValueError MathDomainError)
      else if value_per_L P0 Pl Pu \<le> 0 then Inl (ValueError InvalidValuePerL)
      else Inr (initial_usd / value_per_L P0 Pl Pu))"

section \<open>init\_position.py\<close>

text \<open>
  \<open>calc_usdt_for_eth_in_pool\<close>: guards in source order. The three square roots are taken
  before the first division; once they have succeeded and \<open>lower < price\<close> holds,
  \<open>price\<close> is positive, so \<open>1 / sqrt_price\<close> and \<open>1 / sqrt_upper\<close> do not divide by
  zero, and \<open>delta_sqrt_inv\<close> is positive where it divides.
\<close>

definition delta_sqrt_inv :: "real \<Rightarrow> real \<Rightarrow> real" where
  "delta_sqrt_inv price upper = 1 / sqrt price - 1 / sqrt upper"

definition calc_usdt_for_eth_in_pool :: "real \<Rightarrow> real \<Rightarrow> real \<Rightarrow> real \<Rightarrow> error + real" where
  "calc_usdt_for_eth_in_pool price lower upper eth_in_pool =
     (if eth_in_pool \<le> 0 then Inl (ValueError EthInPoolNotPositive)
      else if \<not> (lower < price \<and> price < upper) then Inl (ValueError PriceNotStrictlyWithin)
      else if price < 0 then Inl (ValueError MathDomainError)
      else if lower < 0 then Inl (ValueError MathDomainError)
      else if upper < 0 then Inl (ValueError MathDomainError)
      else if delta_sqrt_inv price upper \<le> 0 then Inl (ValueError DeltaSqrtInvNotPositive)
      else
        let liquidity = eth_in_pool / delta_sqrt_inv price upper;
            delta_sqrt = sqrt price - sqrt lower in
        if delta_sqrt < 0 then Inl (ValueError DeltaSqrtNegative)
        else Inr (liquidity * delta_sqrt))"

section \<open>backtest\_eth: the hedge-ratio rule\<close>

text \<open>
  \<open>calculate_k\<close> has no failing path: both divisions are reached only when
  \<open>Pl < P < Pu\<close>, where \<open>mid - Pl\<close> and \<open>Pu - mid\<close> are positive.
\<close>

definition calculate_k :: "real \<Rightarrow> real \<Rightarrow> real \<Rightarrow> real \<Rightarrow> real" where
  "calculate_k P Pl Pu k0 =
     (if P \<le> Pl then 1
      else if P \<ge> Pu then 0
      else
        let mid = (Pl + Pu) / 2 in
        if P \<le> mid then 1 - (1 - k0) * (P - Pl) / (mid - Pl)
        else k0 - k0 * (P - mid) / (Pu - mid))"

section \<open>backtest\_eth: data loading\<close>

text \<open>
  A timestamp is a UTC instant (an integer count of microseconds since the epoch); the
  normalisation of \<open>start_ts\<close> and \<open>end_ts\<close> to UTC does not change the instant.
  Reading the file and parsing its cells is outside the model: the file system maps a
  file name to the outcome of the reading loop of \<open>load_eth_1h_csv\<close>, the parsed rows in
  file order or the exception raised. The emptiness check and the stable sort by
  timestamp are modelled.
\<close>

type_synonym timestamp = int

type_synonym price_rows = "(timestamp \<times> real) list"

definition load_eth_1h_csv :: "(string \<Rightarrow> error + price_rows) \<Rightarrow> string \<Rightarrow> error + price_rows" where
  "load_eth_1h_csv fs filename =
     (case fs filename of
        Inl e \<Rightarrow> Inl e
      | Inr rows \<Rightarrow>
          if rows = [] then Inl (ValueError NoRowsLoaded) else Inr (sort_key fst rows))"

definition filter_period :: "price_rows \<Rightarrow> timestamp \<Rightarrow> timestamp \<Rightarrow> price_rows" where
  "filter_period data start_ts end_ts =
     filter (\<lambda>(ts, p). start_ts \<le> ts \<and> ts \<le> end_ts) data"

section \<open>config.py and the environment of a run\<close>

text \<open>
  The module \<open>config\<close> that \<open>run_backtest\<close> imports as \<open>cfg\<close>. \<open>P0_MODE\<close> is read with
  \<open>getattr(cfg, "P0_MODE", "fixed")\<close>, so it may be absent.
\<close>

record config =
  cfg_CSV_FILE :: string
  cfg_START_TS :: string
  cfg_END_TS :: string
  cfg_P0_MODE :: "string option"
  cfg_P0 :: real
  cfg_PL :: real
  cfg_PU :: real
  cfg_ETH_IN_POOL :: real
  cfg_HEDGE_K0 :: real
  cfg_THRESHOLD :: real

text \<open>
  What a call of \<open>run_backtest\<close> reads besides its arguments: the config module, the
  file system, and \<open>datetime.fromisoformat\<close> (applied to the config's strings only).
\<close>

record environment =
  cfg :: config
  files :: "string \<Rightarrow> error + price_rows"
  fromisoformat :: "string \<Rightarrow> error + timestamp"

section \<open>backtest\_eth: the backtest core\<close>

text \<open>The dictionary appended to \<open>rebalance_events\<close>; \<open>ts\<close> stands for \<open>ts.isoformat()\<close>.\<close>

record event =
  ev_ts :: timestamp
  ev_price :: real
  ev_anchor_before :: real
  ev_move :: real
  ev_k :: real
  ev_eth_now :: real
  ev_H_before :: real
  ev_H_target :: real
  ev_delta_H :: real
  ev_cash :: real
  ev_hedge_pnl_mtm :: real

text \<open>The dictionary \<open>summary\<close>.\<close>

record summary =
  sm_rebalance_count :: nat
  sm_cumulative_abs_delta_h :: real
  sm_hedge_pnl :: real
  sm_lp_pnl :: real
  sm_total_pnl :: real
  sm_final_price :: real
  sm_lp_value_start :: real
  sm_lp_value_end :: real
  sm_final_hedge_position :: real
  sm_P0 :: real
  sm_Pl :: real
  sm_Pu :: real
  sm_L :: real
  sm_eth_in_pool :: real
  sm_initial_usdt_required :: real
  sm_threshold :: real
  sm_hedge_k0 :: real

record backtest_result =
  res_rebalance_events :: "event list"
  res_summary :: summary

text \<open>The local variables of \<open>run_backtest\<close> that the loop over the price data updates.\<close>

record hedge_state =
  current_H :: real
  cash :: real
  anchor_price :: real
  rebalance_events :: "event list"
  rebalance_count :: nat
  cumulative_abs_delta_h :: real

text \<open>
  One iteration of the loop over \<open>price_data[1:]\<close>. \<open>anchor_price\<close> is a divisor, so a
  zero anchor raises; \<open>continue\<close> leaves the state as it is.
\<close>

definition rebalance_tick ::
  "real \<Rightarrow> real \<Rightarrow> real \<Rightarrow> real \<Rightarrow> real \<Rightarrow> hedge_state \<Rightarrow> timestamp \<times> real \<Rightarrow> error + hedge_state" where
  "rebalance_tick Pl Pu L hedge_k0 threshold s pt =
     (case pt of (ts, P_now) \<Rightarrow>
        if anchor_price s = 0 then Inl ZeroDivisionError
        else
          let move = \<bar>P_now - anchor_price s\<bar> / anchor_price s in
          if move < threshold then Inr s
          else
            let H_before = current_H s;
                k = calculate_k P_now Pl Pu hedge_k0 in
            case amounts_from_L P_now Pl Pu L of
              Inl e \<Rightarrow> Inl e
            | Inr (eth_now, usdt_now) \<Rightarrow>
                let target_H = - (eth_now * k);
                    delta_h = target_H - H_before;
                    cash_now = cash s - delta_h * P_now;
                    hedge_pnl_mtm = cash_now + target_H * P_now
                in Inr \<lparr>current_H = target_H,
                        cash = cash_now,
                        anchor_price = P_now,
                        rebalance_events = rebalance_events s @
                          [\<lparr>ev_ts = ts, ev_price = P_now, ev_anchor_before = anchor_price s,
                            ev_move = move, ev_k = k, ev_eth_now = eth_now,
                            ev_H_before = H_before, ev_H_target = target_H,
                            ev_delta_H = delta_h, ev_cash = cash_now,
                            ev_hedge_pnl_mtm = hedge_pnl_mtm\<rparr>],
                        rebalance_count = rebalance_count s + 1,
                        cumulative_abs_delta_h = cumulative_abs_delta_h s + \<bar>delta_h\<bar>\<rparr>)"

fun run_loop ::
  "real \<Rightarrow> real \<Rightarrow> real \<Rightarrow> real \<Rightarrow> real \<Rightarrow> hedge_state \<Rightarrow> price_rows \<Rightarrow> error + hedge_state" where
  "run_loop Pl Pu L hedge_k0 threshold s [] = Inr s"
| "run_loop Pl Pu L hedge_k0 threshold s (pt # pts) =
     (case rebalance_tick Pl Pu L hedge_k0 threshold s pt of
        Inl e \<Rightarrow> Inl e
      | Inr s' \<Rightarrow> run_loop Pl Pu L hedge_k0 threshold s' pts)"

text \<open>
  The first part of \<open>run_backtest\<close>, up to the choice of \<open>P0\<close>: arguments that are \<open>None\<close>
  (and an empty \<open>csv_file\<close>, which \<open>or\<close> treats as missing) are taken from the config
  module, the data is loaded and filtered, and \<open>P0\<close> is the first price of the window
  or the config's \<open>P0\<close>, as the config's \<open>P0_MODE\<close> says.
\<close>

record run_inputs =
  in_price_data :: price_rows
  in_P0 :: real
  in_Pl :: real
  in_Pu :: real
  in_eth_in_pool :: real
  in_hedge_k0 :: real
  in_threshold :: real

definition run_backtest_inputs ::
  "environment \<Rightarrow> string option \<Rightarrow> timestamp option \<Rightarrow> timestamp option \<Rightarrow>
   real option \<Rightarrow> real option \<Rightarrow> real option \<Rightarrow> real option \<Rightarrow> real option \<Rightarrow> error + run_inputs" where
  "run_backtest_inputs env csv_file start_ts end_ts Pl Pu eth_in_pool hedge_k0 threshold =
     (let csv_file_used =
            (case csv_file of
               None \<Rightarrow> cfg_CSV_FILE (cfg env)
             | Some f \<Rightarrow> if f = [] then cfg_CSV_FILE (cfg env) else f) in
      case (case start_ts of
              Some t \<Rightarrow> Inr t
            | None \<Rightarrow> fromisoformat env (cfg_START_TS (cfg env))) of
        Inl e \<Rightarrow> Inl e
      | Inr start_used \<Rightarrow>
      case (case end_ts of
              Some t \<Rightarrow> Inr t
            | None \<Rightarrow> fromisoformat env (cfg_END_TS (cfg env))) of
        Inl e \<Rightarrow> Inl e
      | Inr end_used \<Rightarrow>
      case load_eth_1h_csv (files env) csv_file_used of
        Inl e \<Rightarrow> Inl e
      | Inr data_all \<Rightarrow>
          let price_data = filter_period data_all start_used end_used in
          if length price_data < 2 then Inl (ValueError NotEnoughDataPoints)
          else
            Inr \<lparr>in_price_data = price_data,
                 in_P0 =
                   (if (case cfg_P0_MODE (cfg env) of None \<Rightarrow> ''fixed'' | Some m \<Rightarrow> m)
                         = ''from_data''
                    then snd (hd price_data) else cfg_P0 (cfg env)),
                 in_Pl = (case Pl of Some v \<Rightarrow> v | None \<Rightarrow> cfg_PL (cfg env)),
                 in_Pu = (case Pu of Some v \<Rightarrow> v | None \<Rightarrow> cfg_PU (cfg env)),
                 in_eth_in_pool =
                   (case eth_in_pool of Some v \<Rightarrow> v | None \<Rightarrow> cfg_ETH_IN_POOL (cfg env)),
                 in_hedge_k0 =
                   (case hedge_k0 of Some v \<Rightarrow> v | None \<Rightarrow> cfg_HEDGE_K0 (cfg env)),
                 in_threshold =
                   (case threshold of Some v \<Rightarrow> v | None \<Rightarrow> cfg_THRESHOLD (cfg env))\<rparr>)"

text \<open>
  The rest of \<open>run_backtest\<close>: the initial position, the initial hedge, the loop and the
  summary. \<open>calc_usdt_for_eth_in_pool\<close> has returned before the two square roots and the
  quotient \<open>denom\<close> are computed, so \<open>P0\<close> and \<open>Pu\<close> are positive there. The \<open>print\<close>
  calls are left out.
\<close>

definition initial_state :: "real \<Rightarrow> real \<Rightarrow> real \<Rightarrow> hedge_state" where
  "initial_state P0 eth_in_pool hedge_k0 =
     (let initial_short_eth = eth_in_pool * hedge_k0 in
      \<lparr>current_H = - initial_short_eth,
       cash = 0 + initial_short_eth * P0,
       anchor_price = P0,
       rebalance_events = [],
       rebalance_count = 0,
       cumulative_abs_delta_h = 0\<rparr>)"

definition run_backtest_core :: "run_inputs \<Rightarrow> error + backtest_result" where
  "run_backtest_core inp =
     (case calc_usdt_for_eth_in_pool (in_P0 inp) (in_Pl inp) (in_Pu inp) (in_eth_in_pool inp) of
        Inl e \<Rightarrow> Inl e
      | Inr initial_usdt \<Rightarrow>
      let denom = 1 / sqrt (in_P0 inp) - 1 / sqrt (in_Pu inp) in
      if denom \<le> 0 then Inl (ValueError InvalidRangeDenom)
      else
        let L = in_eth_in_pool inp / denom in
        case amounts_from_L (in_P0 inp) (in_Pl inp) (in_Pu inp) L of
          Inl e \<Rightarrow> Inl e
        | Inr (eth0, usdt0) \<Rightarrow>
        case lp_value (in_P0 inp) (in_Pl inp) (in_Pu inp) L of
          Inl e \<Rightarrow> Inl e
        | Inr lp_value_start \<Rightarrow>
        case run_loop (in_Pl inp) (in_Pu inp) L (in_hedge_k0 inp) (in_threshold inp)
               (initial_state (in_P0 inp) (in_eth_in_pool inp) (in_hedge_k0 inp))
               (tl (in_price_data inp)) of
          Inl e \<Rightarrow> Inl e
        | Inr s \<Rightarrow>
        let final_price = snd (last (in_price_data inp));
            hedge_pnl = cash s + current_H s * final_price in
        case lp_value final_price (in_Pl inp) (in_Pu inp) L of
          Inl e \<Rightarrow> Inl e
        | Inr lp_value_end \<Rightarrow>
        let lp_pnl = lp_value_end - lp_value_start;
            total_pnl = lp_pnl + hedge_pnl in
        Inr \<lparr>res_rebalance_events = rebalance_events s,
             res_summary =
               \<lparr>sm_rebalance_count = rebalance_count s,
                sm_cumulative_abs_delta_h = cumulative_abs_delta_h s,
                sm_hedge_pnl = hedge_pnl,
                sm_lp_pnl = lp_pnl,
                sm_total_pnl = total_pnl,
                sm_final_price = final_price,
                sm_lp_value_start = lp_value_start,
                sm_lp_value_end = lp_value_end,
                sm_final_hedge_position = current_H s,
                sm_P0 = in_P0 inp,
                sm_Pl = in_Pl inp,
                sm_Pu = in_Pu inp,
                sm_L = L,
                sm_eth_in_pool = in_eth_in_pool inp,
                sm_initial_usdt_required = initial_usdt,
                sm_threshold = in_threshold inp,
                sm_hedge_k0 = in_hedge_k0 inp\<rparr>\<rparr>)"

definition run_backtest ::
  "environment \<Rightarrow> string option \<Rightarrow> timestamp option \<Rightarrow> timestamp option \<Rightarrow>
   real option \<Rightarrow> real option \<Rightarrow> real option \<Rightarrow> real option \<Rightarrow> real option \<Rightarrow> error + backtest_result" where
  "run_backtest env csv_file start_ts end_ts Pl Pu eth_in_pool hedge_k0 threshold =
     (case run_backtest_inputs env csv_file start_ts end_ts Pl Pu eth_in_pool hedge_k0 threshold of
        Inl e \<Rightarrow> Inl e
      | Inr inp \<Rightarrow> run_backtest_core inp)"

section \<open>The rebalance log, as the trigger rule describes it\<close>

text \<open>
  The points of a price list at which the trigger rule fires: a point fires when its
  relative move from the anchor is not below the threshold, and the anchor moves to that
  point's price only then.
\<close>

fun triggered_points :: "real \<Rightarrow> real \<Rightarrow> price_rows \<Rightarrow> price_rows" where
  "triggered_points threshold anchor [] = []"
| "triggered_points threshold anchor ((ts, P_now) # pts) =
     (if \<bar>P_now - anchor\<bar> / anchor < threshold
      then triggered_points threshold anchor pts
      else (ts, P_now) # triggered_points threshold P_now pts)"

text \<open>
  A log is consistent from an anchor \<open>a\<close>, a hedge position \<open>h\<close> and a cash balance \<open>c\<close>
  when each event records the anchor, position and cash left by the event before it
  (\<open>a\<close>, \<open>h\<close>, \<open>c\<close> for the first) and the quantities of the rebalance step computed from
  them at the event's price.
\<close>

fun consistent_log ::
  "real \<Rightarrow> real \<Rightarrow> real \<Rightarrow> real \<Rightarrow> real \<Rightarrow> real \<Rightarrow> real \<Rightarrow> real \<Rightarrow> event list \<Rightarrow> bool" where
  "consistent_log Pl Pu L hedge_k0 threshold a h c [] = True"
| "consistent_log Pl Pu L hedge_k0 threshold a h c (e # es) =
     (ev_anchor_before e = a
      \<and> ev_move e = \<bar>ev_price e - a\<bar> / a
      \<and> threshold \<le> ev_move e
      \<and> ev_H_before e = h
      \<and> ev_k e = calculate_k (ev_price e) Pl Pu hedge_k0
      \<and> (\<exists>usdt_now. amounts_from_L (ev_price e) Pl Pu L = Inr (ev_eth_now e, usdt_now))
      \<and> ev_H_target e = - (ev_eth_now e * ev_k e)
      \<and> ev_delta_H e = ev_H_target e - h
      \<and> ev_cash e = c - ev_delta_H e * ev_price e
      \<and> ev_hedge_pnl_mtm e = ev_cash e + ev_H_target e * ev_price e
      \<and> consistent_log Pl Pu L hedge_k0 threshold (ev_price e) (ev_H_target e) (ev_cash e) es)"

section \<open>An example run\<close>

text \<open>
  The values of \<open>config_FREEZE_20260108.py\<close>, and a file of ten hourly closes rising
  from 2900 to 3200 inside the configured window, after one close before the window.
\<close>

definition frozen_config :: config where
  "frozen_config =
     \<lparr>cfg_CSV_FILE = ''eth_1h.csv'',
      cfg_START_TS = ''2025-11-07T00:00:00+00:00'',
      cfg_END_TS = ''2026-01-06T00:00:00+00:00'',
      cfg_P0_MODE = Some ''from_data'',
      cfg_P0 = 3150, cfg_PL = 2651, cfg_PU = 3498, cfg_ETH_IN_POOL = 1,
      cfg_HEDGE_K0 = 7 / 10, cfg_THRESHOLD = 1 / 20\<rparr>"

definition example_rows :: price_rows where
  "example_rows =
     [(1762470000000000, 2800),
      (1762473600000000, 2900), (1762477200000000, 2930), (1762480800000000, 2960),
      (1762484400000000, 2990), (1762488000000000, 3020), (1762491600000000, 3050),
      (1762495200000000, 3100), (1762498800000000, 3130), (1762502400000000, 3160),
      (1762506000000000, 3200)]"

definition example_env :: environment where
  "example_env =
     \<lparr>cfg = frozen_config,
      files = (\<lambda>f. if f = ''eth_1h.csv'' then Inr example_rows else Inl OSError),
      fromisoformat =
        (\<lambda>s. if s = ''2025-11-07T00:00:00+00:00'' then Inr 1762473600000000
             else if s = ''2026-01-06T00:00:00+00:00'' then Inr 1767657600000000
             else Inl (ValueError InvalidIsoFormat))\<rparr>"

text \<open>The same environment with the config's \<open>P0_MODE\<close> set to \<open>"fixed"\<close>.\<close>

definition fixed_env :: environment where
  "fixed_env = example_env\<lparr>cfg := frozen_config\<lparr>cfg_P0_MODE := Some ''fixed''\<rparr>\<rparr>"

section \<open>The programs in double arithmetic\<close>

text \<open>
  A Python float is an IEEE 754 double, and every arithmetic operation and \<open>math.sqrt\<close>
  returns the double nearest to the exact result, ties to the even mantissa. The
  definitions of this section repeat the four pure functions with that rounding written
  at every operation. The rounding is a parameter \<open>rnd\<close>: with the identity it gives the
  exact functions above, with \<open>binary64\<close> the doubles. A division whose divisor has been
  rounded is guarded, since it raises when the divisor is zero.

  \<open>binary64\<close> rounds a real to 53 significant bits, ties to even. The exponent is not
  bounded, so it agrees with the doubles where no result overflows or becomes
  subnormal; infinities and NaN are not modelled.
\<close>

definition round_even :: "real \<Rightarrow> int" where
  "round_even y =
     (let f = \<lfloor>y\<rfloor> in
      if y - of_int f < 1 / 2 then f
      else if 1 / 2 < y - of_int f then f + 1
      else if even f then f else f + 1)"

definition pow2 :: "int \<Rightarrow> real" where
  "pow2 e = 2 powr (of_int e)"

definition binary64 :: "real \<Rightarrow> real" where
  "binary64 x =
     (if x = 0 then 0
      else
        let e = \<lfloor>log 2 \<bar>x\<bar>\<rfloor> in
        sgn x * (of_int (round_even (\<bar>x\<bar> * pow2 (52 - e))) * pow2 (e - 52)))"

definition amounts_from_L_fl ::
  "(real \<Rightarrow> real) \<Rightarrow> real \<Rightarrow> real \<Rightarrow> real \<Rightarrow> real \<Rightarrow> error + (real \<times> real)" where
  "amounts_from_L_fl rnd P Pl Pu L =
     (if P \<le> 0 \<or> Pl \<le> 0 \<or> Pu \<le> 0 then Inl (ValueError PricesNotPositive)
      else if L \<le> 0 then Inl (ValueError LiquidityNotPositive)
      else if Pl \<ge> Pu then Inl (ValueError PlNotBelowPu)
      else
        let sqrtP = rnd (sqrt P); sqrtPa = rnd (sqrt Pl); sqrtPb = rnd (sqrt Pu) in
        if P \<le> Pl then
          (if sqrtPa = 0 \<or> sqrtPb = 0 then Inl ZeroDivisionError
           else Inr (rnd (L * rnd (rnd (1 / sqrtPa) - rnd (1 / sqrtPb))), 0))
        else if P < Pu then
          (if sqrtP = 0 \<or> sqrtPb = 0 then Inl ZeroDivisionError
           else Inr (rnd (L * rnd (rnd (1 / sqrtP) - rnd (1 / sqrtPb))),
                     rnd (L * rnd (sqrtP - sqrtPa))))
        else Inr (0, rnd (L * rnd (sqrtPb - sqrtPa))))"

definition value_per_L_fl :: "(real \<Rightarrow> real) \<Rightarrow> real \<Rightarrow> real \<Rightarrow> real \<Rightarrow> real" where
  "value_per_L_fl rnd P0 Pl Pu =
     rnd (rnd (rnd (2 * rnd (sqrt P0)) - rnd (P0 / rnd (sqrt Pu))) - rnd (sqrt Pl))"

definition L_from_initial_usd_fl ::
  "(real \<Rightarrow> real) \<Rightarrow> real \<Rightarrow> real \<Rightarrow> real \<Rightarrow> real \<Rightarrow> error + real" where
  "L_from_initial_usd_fl rnd P0 Pl Pu initial_usd =
     (if \<not> (Pl < P0 \<and> P0 < Pu) then Inl (ValueError P0NotStrictlyWithin)
      else if initial_usd \<le> 0 then Inl (ValueError InitialUsdNotPositive)
      else if P0 < 0 then Inl (ValueError MathDomainError)
      else if Pl < 0 then Inl (ValueError MathDomainError)
      else if Pu < 0 then Inl (ValueError MathDomainError)
      else if rnd (sqrt Pu) = 0 then Inl ZeroDivisionError
      else if value_per_L_fl rnd P0 Pl Pu \<le> 0 then Inl (ValueError InvalidValuePerL)
      else Inr (rnd (initial_usd / value_per_L_fl rnd P0 Pl Pu)))"

definition delta_sqrt_inv_fl :: "(real \<Rightarrow> real) \<Rightarrow> real \<Rightarrow> real \<Rightarrow> real" where
  "delta_sqrt_inv_fl rnd price upper =
     rnd (rnd (1 / rnd (sqrt price)) - rnd (1 / rnd (sqrt upper)))"

definition calc_usdt_for_eth_in_pool_fl ::
  "(real \<Rightarrow> real) \<Rightarrow> real \<Rightarrow> real \<Rightarrow> real \<Rightarrow> real \<Rightarrow> error + real" where
  "calc_usdt_for_eth_in_pool_fl rnd price lower upper eth_in_pool =
     (if eth_in_pool \<le> 0 then Inl (ValueError EthInPoolNotPositive)
      else if \<not> (lower < price \<and> price < upper) then Inl (ValueError PriceNotStrictlyWithin)
      else if price < 0 then Inl (ValueError MathDomainError)
      else if lower < 0 then Inl (ValueError MathDomainError)
      else if upper < 0 then Inl (ValueError MathDomainError)
      else if rnd (sqrt price) = 0 \<or> rnd (sqrt upper) = 0 then Inl ZeroDivisionError
      else if delta_sqrt_inv_fl rnd price upper \<le> 0
        then Inl (ValueError DeltaSqrtInvNotPositive)
      else
        let liquidity = rnd (eth_in_pool / delta_sqrt_inv_fl rnd price upper);
            delta_sqrt = rnd (rnd (sqrt price) - rnd (sqrt lower)) in
        if delta_sqrt < 0 then Inl (ValueError DeltaSqrtNegative)
        else Inr (rnd (liquidity * delta_sqrt)))"

definition calculate_k_fl ::
  "(real \<Rightarrow> real) \<Rightarrow> real \<Rightarrow> real \<Rightarrow> real \<Rightarrow> real \<Rightarrow> error + real" where
  "calculate_k_fl rnd P Pl Pu k0 =
     (if P \<le> Pl then Inr 1
      else if P \<ge> Pu then Inr 0
      else
        let mid = rnd (rnd (Pl + Pu) / 2) in
        if P \<le> mid then
          (if rnd (mid - Pl) = 0 then Inl ZeroDivisionError
           else Inr (rnd (1 - rnd (rnd (rnd (1 - k0) * rnd (P - Pl)) / rnd (mid - Pl)))))
        else
          (if rnd (Pu - mid) = 0 then Inl ZeroDivisionError
           else Inr (rnd (k0 - rnd (rnd (k0 * rnd (P - mid)) / rnd (Pu - mid))))))"

text \<open>
  What the theorems about an arbitrary rounding use: it is monotone, keeps zero, and the
  rounded square root of a positive number is positive (as for the doubles, whose
  smallest positive square root is about \<open>2.2e-162\<close>).
\<close>

definition rounding :: "(real \<Rightarrow> real) \<Rightarrow> bool" where
  "rounding rnd \<longleftrightarrow>
     (\<forall>x y. x \<le> y \<longrightarrow> rnd x \<le> rnd y) \<and> rnd 0 = 0 \<and> (\<forall>x. 0 < x \<longrightarrow> 0 < rnd (sqrt x))"

section \<open>Square-root facts\<close>

lemma inv_sqrt_diff_pos:
  assumes "0 < a" "a < b"
  shows "0 < 1 / sqrt a - 1 / sqrt b"
proof -
  have "0 < sqrt a" "sqrt a < sqrt b"
    using assms by simp_all
  then have "1 / sqrt b < 1 / sqrt a"
    by (simp add: frac_less2)
  then show ?thesis by simp
qed

lemma sqrt_9: "sqrt 9 = 3"
  by (rule real_sqrt_unique) simp_all

section \<open>Interpolation facts\<close>




section \<open>The hedge-ratio schedule\<close>







section \<open>Closed forms of the two sizing functions\<close>

lemma value_per_L_split:
  assumes "0 < P0" "0 < Pu"
  shows "value_per_L P0 Pl Pu = (1 / sqrt P0 - 1 / sqrt Pu) * P0 + (sqrt P0 - sqrt Pl)"
proof -
  have "P0 / sqrt P0 = sqrt P0"
    using assms by (simp add: real_div_sqrt)
  then have "(1 / sqrt P0 - 1 / sqrt Pu) * P0 = sqrt P0 - P0 / sqrt Pu"
    by (simp add: left_diff_distrib)
  then show ?thesis by (simp add: value_per_L_def)
qed

lemma value_per_L_pos:
  assumes "0 \<le> Pl" "Pl < P0" "P0 < Pu"
  shows "0 < value_per_L P0 Pl Pu"
proof -
  have p: "0 < P0" "0 < Pu" using assms by linarith+
  have "0 < 1 / sqrt P0 - 1 / sqrt Pu"
    using p assms by (intro inv_sqrt_diff_pos)
  then have "0 < (1 / sqrt P0 - 1 / sqrt Pu) * P0"
    using p by simp
  moreover have "0 < sqrt P0 - sqrt Pl"
    using assms by simp
  ultimately show ?thesis
    unfolding value_per_L_split [OF p] by linarith
qed

lemma delta_sqrt_inv_pos:
  assumes "0 \<le> lower" "lower < price" "price < upper"
  shows "0 < delta_sqrt_inv price upper"
  unfolding delta_sqrt_inv_def using assms by (intro inv_sqrt_diff_pos) linarith+


lemma calc_usdt_closed:
  assumes "0 \<le> lower" "lower < price" "price < upper" "0 < eth_in_pool"
  shows "calc_usdt_for_eth_in_pool price lower upper eth_in_pool
           = Inr (eth_in_pool / delta_sqrt_inv price upper * (sqrt price - sqrt lower))"
  using assms delta_sqrt_inv_pos [OF assms(1-3)]
  by (simp add: calc_usdt_for_eth_in_pool_def Let_def)

section \<open>Sizing by value, then valuing\<close>



section \<open>The rebalance step and the loop\<close>

lemma rebalance_tick_skip:
  assumes "anchor_price s \<noteq> 0" "\<bar>P_now - anchor_price s\<bar> / anchor_price s < threshold"
  shows "rebalance_tick Pl Pu L hedge_k0 threshold s (ts, P_now) = Inr s"
  using assms by (simp add: rebalance_tick_def Let_def)

lemma rebalance_tick_trigger:
  assumes "anchor_price s \<noteq> 0" "\<not> \<bar>P_now - anchor_price s\<bar> / anchor_price s < threshold"
    and "amounts_from_L P_now Pl Pu L = Inr (eth_now, usdt_now)"
  shows "rebalance_tick Pl Pu L hedge_k0 threshold s (ts, P_now) =
     Inr \<lparr>current_H = - (eth_now * calculate_k P_now Pl Pu hedge_k0),
          cash = cash s
            - (- (eth_now * calculate_k P_now Pl Pu hedge_k0) - current_H s) * P_now,
          anchor_price = P_now,
          rebalance_events = rebalance_events s @
            [\<lparr>ev_ts = ts, ev_price = P_now, ev_anchor_before = anchor_price s,
              ev_move = \<bar>P_now - anchor_price s\<bar> / anchor_price s,
              ev_k = calculate_k P_now Pl Pu hedge_k0, ev_eth_now = eth_now,
              ev_H_before = current_H s,
              ev_H_target = - (eth_now * calculate_k P_now Pl Pu hedge_k0),
              ev_delta_H = - (eth_now * calculate_k P_now Pl Pu hedge_k0) - current_H s,
              ev_cash = cash s
                - (- (eth_now * calculate_k P_now Pl Pu hedge_k0) - current_H s) * P_now,
              ev_hedge_pnl_mtm = cash s
                - (- (eth_now * calculate_k P_now Pl Pu hedge_k0) - current_H s) * P_now
                + - (eth_now * calculate_k P_now Pl Pu hedge_k0) * P_now\<rparr>],
          rebalance_count = rebalance_count s + 1,
          cumulative_abs_delta_h = cumulative_abs_delta_h s
            + \<bar>- (eth_now * calculate_k P_now Pl Pu hedge_k0) - current_H s\<bar>\<rparr>"
  using assms by (simp add: rebalance_tick_def Let_def)

lemma rebalance_tick_Inr:
  assumes "rebalance_tick Pl Pu L hedge_k0 threshold s (ts, P_now) = Inr s'"
  shows "anchor_price s \<noteq> 0"
    and "\<bar>P_now - anchor_price s\<bar> / anchor_price s < threshold \<Longrightarrow> s' = s"
    and "\<not> \<bar>P_now - anchor_price s\<bar> / anchor_price s < threshold \<Longrightarrow>
           \<exists>eth_now usdt_now. amounts_from_L P_now Pl Pu L = Inr (eth_now, usdt_now)"
proof -
  show a: "anchor_price s \<noteq> 0"
    using assms by (auto simp: rebalance_tick_def split: if_splits)
  show "s' = s" if "\<bar>P_now - anchor_price s\<bar> / anchor_price s < threshold"
    using assms rebalance_tick_skip [OF a that] by simp
  show "\<exists>eth_now usdt_now. amounts_from_L P_now Pl Pu L = Inr (eth_now, usdt_now)"
    if "\<not> \<bar>P_now - anchor_price s\<bar> / anchor_price s < threshold"
    using assms a that
    by (cases "amounts_from_L P_now Pl Pu L") (auto simp: rebalance_tick_def Let_def)
qed

lemma run_loop_log:
  assumes "run_loop Pl Pu L k0 th s pts = Inr s'"
  shows "\<exists>new. rebalance_events s' = rebalance_events s @ new
     \<and> consistent_log Pl Pu L k0 th (anchor_price s) (current_H s) (cash s) new
     \<and> map (\<lambda>e. (ev_ts e, ev_price e)) new = triggered_points th (anchor_price s) pts
     \<and> anchor_price s' = (if new = [] then anchor_price s else ev_price (last new))
     \<and> current_H s' = (if new = [] then current_H s else ev_H_target (last new))
     \<and> cash s' = (if new = [] then cash s else ev_cash (last new))
     \<and> rebalance_count s' = rebalance_count s + length new
     \<and> cumulative_abs_delta_h s' = cumulative_abs_delta_h s + (\<Sum>e\<leftarrow>new. \<bar>ev_delta_H e\<bar>)"
  using assms
proof (induction pts arbitrary: s)
  case Nil
  then show ?case by simp
next
  case (Cons pt pts)
  obtain ts P_now where pt: "pt = (ts, P_now)" by (cases pt)
  from Cons.prems obtain s1 where
    t: "rebalance_tick Pl Pu L k0 th s (ts, P_now) = Inr s1"
    and l: "run_loop Pl Pu L k0 th s1 pts = Inr s'"
    by (auto simp: pt split: sum.splits)
  from Cons.IH [OF l] obtain new1 where n1:
    "rebalance_events s' = rebalance_events s1 @ new1"
    "consistent_log Pl Pu L k0 th (anchor_price s1) (current_H s1) (cash s1) new1"
    "map (\<lambda>e. (ev_ts e, ev_price e)) new1 = triggered_points th (anchor_price s1) pts"
    "anchor_price s' = (if new1 = [] then anchor_price s1 else ev_price (last new1))"
    "current_H s' = (if new1 = [] then current_H s1 else ev_H_target (last new1))"
    "cash s' = (if new1 = [] then cash s1 else ev_cash (last new1))"
    "rebalance_count s' = rebalance_count s1 + length new1"
    "cumulative_abs_delta_h s' = cumulative_abs_delta_h s1 + (\<Sum>e\<leftarrow>new1. \<bar>ev_delta_H e\<bar>)"
    by blast
  have a: "anchor_price s \<noteq> 0" using rebalance_tick_Inr(1) [OF t] .
  show ?case
  proof (cases "\<bar>P_now - anchor_price s\<bar> / anchor_price s < th")
    case True
    then have "s1 = s" using rebalance_tick_Inr(2) [OF t] by simp
    with n1 True show ?thesis
      by (intro exI [of _ new1]) (simp add: pt)
  next
    case False
    then obtain eth_now usdt_now where
      am: "amounts_from_L P_now Pl Pu L = Inr (eth_now, usdt_now)"
      using rebalance_tick_Inr(3) [OF t] by blast
    let ?k = "calculate_k P_now Pl Pu k0"
    let ?e = "\<lparr>ev_ts = ts, ev_price = P_now, ev_anchor_before = anchor_price s,
              ev_move = \<bar>P_now - anchor_price s\<bar> / anchor_price s,
              ev_k = ?k, ev_eth_now = eth_now,
              ev_H_before = current_H s,
              ev_H_target = - (eth_now * ?k),
              ev_delta_H = - (eth_now * ?k) - current_H s,
              ev_cash = cash s - (- (eth_now * ?k) - current_H s) * P_now,
              ev_hedge_pnl_mtm = cash s - (- (eth_now * ?k) - current_H s) * P_now
                + - (eth_now * ?k) * P_now\<rparr>"
    have s1: "current_H s1 = - (eth_now * ?k)"
      "cash s1 = cash s - (- (eth_now * ?k) - current_H s) * P_now"
      "anchor_price s1 = P_now"
      "rebalance_events s1 = rebalance_events s @ [?e]"
      "rebalance_count s1 = rebalance_count s + 1"
      "cumulative_abs_delta_h s1 = cumulative_abs_delta_h s + \<bar>- (eth_now * ?k) - current_H s\<bar>"
      using t unfolding rebalance_tick_trigger [OF a False am] by auto
    have c: "consistent_log Pl Pu L k0 th (anchor_price s) (current_H s) (cash s) (?e # new1)"
      using n1(2) False am by (simp add: s1)
    show ?thesis
      using n1 s1 c False
      by (intro exI [of _ "?e # new1"]) (simp add: pt)
  qed
qed


section \<open>What a returning run went through\<close>

lemma amounts_from_L_Inr_iff:
  "(\<exists>xy. amounts_from_L P Pl Pu L = Inr xy) \<longleftrightarrow> 0 < P \<and> 0 < Pl \<and> Pl < Pu \<and> 0 < L"
  by (auto simp: amounts_from_L_def Let_def)


lemma lp_value_Inr_iff:
  "(\<exists>v. lp_value P Pl Pu L = Inr v) \<longleftrightarrow> 0 < P \<and> 0 < Pl \<and> Pl < Pu \<and> 0 < L"
  unfolding amounts_from_L_Inr_iff [symmetric]
  by (auto simp: lp_value_def split: sum.splits)


text \<open>What a returning core run went through.\<close>

lemma run_backtest_core_Inr:
  assumes "run_backtest_core inp = Inr res"
  obtains initial_usdt lp_value_start s lp_value_end where
    "calc_usdt_for_eth_in_pool (in_P0 inp) (in_Pl inp) (in_Pu inp) (in_eth_in_pool inp)
       = Inr initial_usdt"
    "0 < 1 / sqrt (in_P0 inp) - 1 / sqrt (in_Pu inp)"
    "\<exists>xy. amounts_from_L (in_P0 inp) (in_Pl inp) (in_Pu inp)
        (in_eth_in_pool inp / (1 / sqrt (in_P0 inp) - 1 / sqrt (in_Pu inp))) = Inr xy"
    "lp_value (in_P0 inp) (in_Pl inp) (in_Pu inp)
        (in_eth_in_pool inp / (1 / sqrt (in_P0 inp) - 1 / sqrt (in_Pu inp))) = Inr lp_value_start"
    "run_loop (in_Pl inp) (in_Pu inp)
        (in_eth_in_pool inp / (1 / sqrt (in_P0 inp) - 1 / sqrt (in_Pu inp)))
        (in_hedge_k0 inp) (in_threshold inp)
        (initial_state (in_P0 inp) (in_eth_in_pool inp) (in_hedge_k0 inp))
        (tl (in_price_data inp)) = Inr s"
    "lp_value (snd (last (in_price_data inp))) (in_Pl inp) (in_Pu inp)
        (in_eth_in_pool inp / (1 / sqrt (in_P0 inp) - 1 / sqrt (in_Pu inp))) = Inr lp_value_end"
    "res_rebalance_events res = rebalance_events s"
    "res_summary res =
       \<lparr>sm_rebalance_count = rebalance_count s,
        sm_cumulative_abs_delta_h = cumulative_abs_delta_h s,
        sm_hedge_pnl = cash s + current_H s * snd (last (in_price_data inp)),
        sm_lp_pnl = lp_value_end - lp_value_start,
        sm_total_pnl = lp_value_end - lp_value_start
           + (cash s + current_H s * snd (last (in_price_data inp))),
        sm_final_price = snd (last (in_price_data inp)),
        sm_lp_value_start = lp_value_start,
        sm_lp_value_end = lp_value_end,
        sm_final_hedge_position = current_H s,
        sm_P0 = in_P0 inp,
        sm_Pl = in_Pl inp,
        sm_Pu = in_Pu inp,
        sm_L = in_eth_in_pool inp / (1 / sqrt (in_P0 inp) - 1 / sqrt (in_Pu inp)),
        sm_eth_in_pool = in_eth_in_pool inp,
        sm_initial_usdt_required = initial_usdt,
        sm_threshold = in_threshold inp,
        sm_hedge_k0 = in_hedge_k0 inp\<rparr>"
  using assms unfolding run_backtest_core_def Let_def
  by (auto split: sum.splits if_splits prod.splits)

lemma run_backtest_Inr:
  assumes "run_backtest env csv_file start_ts end_ts Pl Pu eth_in_pool hedge_k0 threshold = Inr res"
  obtains inp where
    "run_backtest_inputs env csv_file start_ts end_ts Pl Pu eth_in_pool hedge_k0 threshold = Inr inp"
    "run_backtest_core inp = Inr res"
  using assms unfolding run_backtest_def by (auto split: sum.splits)


section \<open>Runs that return\<close>

lemma run_loop_returns:
  assumes "0 < Pl" "Pl < Pu" "0 < L" "0 < anchor_price s" "\<forall>pt\<in>set pts. 0 < snd pt"
  shows "\<exists>s'. run_loop Pl Pu L k0 th s pts = Inr s'"
  using assms(4,5)
proof (induction pts arbitrary: s)
  case Nil
  then show ?case by simp
next
  case (Cons pt pts)
  obtain ts P_now where pt: "pt = (ts, P_now)" by (cases pt)
  have P: "0 < P_now" using Cons.prems(2) by (simp add: pt)
  have a: "anchor_price s \<noteq> 0" using Cons.prems(1) by simp
  show ?case
  proof (cases "\<bar>P_now - anchor_price s\<bar> / anchor_price s < th")
    case True
    then show ?thesis
      using Cons.IH [of s] Cons.prems rebalance_tick_skip [OF a True]
      by (simp add: pt)
  next
    case False
    obtain eth_now usdt_now where
      am: "amounts_from_L P_now Pl Pu L = Inr (eth_now, usdt_now)"
      using amounts_from_L_Inr_iff [of P_now Pl Pu L] P assms(1-3) by auto
    from rebalance_tick_trigger [OF a False am, of k0 ts] obtain s1 where
      s1: "rebalance_tick Pl Pu L k0 th s (ts, P_now) = Inr s1" "anchor_price s1 = P_now"
      by simp
    then show ?thesis
      using Cons.IH [of s1] Cons.prems P by (simp add: pt)
  qed
qed

lemma run_backtest_core_returns:
  assumes "0 < in_Pl inp" "in_Pl inp < in_P0 inp" "in_P0 inp < in_Pu inp"
    "0 < in_eth_in_pool inp" "in_price_data inp \<noteq> []"
    "\<forall>pt\<in>set (in_price_data inp). 0 < snd pt"
  shows "\<exists>res. run_backtest_core inp = Inr res"
proof -
  let ?L = "in_eth_in_pool inp / (1 / sqrt (in_P0 inp) - 1 / sqrt (in_Pu inp))"
  have p: "0 < in_P0 inp" "0 < in_Pu inp" using assms by linarith+
  have d: "0 < 1 / sqrt (in_P0 inp) - 1 / sqrt (in_Pu inp)"
    using p assms by (intro inv_sqrt_diff_pos)
  then have L: "0 < ?L" using assms by simp
  obtain initial_usdt where c:
    "calc_usdt_for_eth_in_pool (in_P0 inp) (in_Pl inp) (in_Pu inp) (in_eth_in_pool inp)
       = Inr initial_usdt"
    using assms by (simp add: calc_usdt_closed)
  obtain xy where am: "amounts_from_L (in_P0 inp) (in_Pl inp) (in_Pu inp) ?L = Inr xy"
    using amounts_from_L_Inr_iff [of "in_P0 inp" "in_Pl inp" "in_Pu inp" ?L] assms p L by auto
  obtain v0 where v0: "lp_value (in_P0 inp) (in_Pl inp) (in_Pu inp) ?L = Inr v0"
    using lp_value_Inr_iff [of "in_P0 inp" "in_Pl inp" "in_Pu inp" ?L] assms p L by auto
  have "\<forall>pt\<in>set (tl (in_price_data inp)). 0 < snd pt"
    using assms(5,6) by (auto dest: list.set_sel(2))
  then obtain s where s:
    "run_loop (in_Pl inp) (in_Pu inp) ?L (in_hedge_k0 inp) (in_threshold inp)
        (initial_state (in_P0 inp) (in_eth_in_pool inp) (in_hedge_k0 inp))
        (tl (in_price_data inp)) = Inr s"
    using run_loop_returns [of "in_Pl inp" "in_Pu inp" ?L
        "initial_state (in_P0 inp) (in_eth_in_pool inp) (in_hedge_k0 inp)"
        "tl (in_price_data inp)" "in_hedge_k0 inp" "in_threshold inp"] assms p L
    by (auto simp: initial_state_def Let_def)
  have "0 < snd (last (in_price_data inp))" using assms(5,6) by simp
  then obtain v1 where v1:
    "lp_value (snd (last (in_price_data inp))) (in_Pl inp) (in_Pu inp) ?L = Inr v1"
    using lp_value_Inr_iff [of "snd (last (in_price_data inp))" "in_Pl inp" "in_Pu inp" ?L]
      assms p L by auto
  obtain x0 y0 where xy: "xy = (x0, y0)" by (cases xy)
  show ?thesis
    using c d am v0 s v1 unfolding run_backtest_core_def Let_def xy by simp
qed

lemma example_inputs:
  "run_backtest_inputs example_env None None None None None None None None =
     Inr \<lparr>in_price_data = tl example_rows, in_P0 = 2900, in_Pl = 2651, in_Pu = 3498,
          in_eth_in_pool = 1, in_hedge_k0 = 7 / 10, in_threshold = 1 / 20\<rparr>"
  by (simp add: run_backtest_inputs_def example_env_def frozen_config_def example_rows_def
      load_eth_1h_csv_def filter_period_def Let_def)


lemma example_run_returns:
  "\<exists>res. run_backtest example_env None None None None None None None None = Inr res"
  using run_backtest_core_returns
    [of "\<lparr>in_price_data = tl example_rows, in_P0 = 2900, in_Pl = 2651, in_Pu = 3498,
          in_eth_in_pool = 1, in_hedge_k0 = 7 / 10, in_threshold = 1 / 20\<rparr>"]
  by (simp add: run_backtest_def example_inputs) (simp add: example_rows_def)

lemma consistent_log_nth:
  assumes "consistent_log Pl Pu L k0 th a h c evs" "i < length evs"
  shows "consistent_log Pl Pu L k0 th
           (if i = 0 then a else ev_price (evs ! (i - 1)))
           (if i = 0 then h else ev_H_target (evs ! (i - 1)))
           (if i = 0 then c else ev_cash (evs ! (i - 1))) [evs ! i]"
  using assms
proof (induction evs arbitrary: a h c i)
  case Nil
  then show ?case by simp
next
  case (Cons e es)
  show ?case
  proof (cases i)
    case 0
    then show ?thesis using Cons.prems by simp
  next
    case (Suc j)
    then have j: "j < length es" using Cons.prems by simp
    have "consistent_log Pl Pu L k0 th (ev_price e) (ev_H_target e) (ev_cash e) es"
      using Cons.prems(1) unfolding consistent_log.simps by blast
    from Cons.IH [OF this j] show ?thesis
      by (cases j) (simp_all add: Suc)
  qed
qed

lemma run_backtest_core_log:
  assumes "run_backtest_core inp = Inr res"
  shows "consistent_log (in_Pl inp) (in_Pu inp) (sm_L (res_summary res))
           (in_hedge_k0 inp) (in_threshold inp) (in_P0 inp)
           (- (in_eth_in_pool inp * in_hedge_k0 inp))
           (in_eth_in_pool inp * in_hedge_k0 inp * in_P0 inp)
           (res_rebalance_events res)"
    and "map (\<lambda>e. (ev_ts e, ev_price e)) (res_rebalance_events res)
           = triggered_points (in_threshold inp) (in_P0 inp) (tl (in_price_data inp))"
    and "sm_final_hedge_position (res_summary res)
           = (if res_rebalance_events res = [] then - (in_eth_in_pool inp * in_hedge_k0 inp)
              else ev_H_target (last (res_rebalance_events res)))"
    and "sm_hedge_pnl (res_summary res)
           = (if res_rebalance_events res = []
              then in_eth_in_pool inp * in_hedge_k0 inp * in_P0 inp
              else ev_cash (last (res_rebalance_events res)))
             + sm_final_hedge_position (res_summary res) * sm_final_price (res_summary res)"
    and "sm_rebalance_count (res_summary res) = length (res_rebalance_events res)"
    and "sm_cumulative_abs_delta_h (res_summary res)
           = (\<Sum>e\<leftarrow>res_rebalance_events res. \<bar>ev_delta_H e\<bar>)"
proof -
  let ?L = "in_eth_in_pool inp / (1 / sqrt (in_P0 inp) - 1 / sqrt (in_Pu inp))"
  let ?s0 = "initial_state (in_P0 inp) (in_eth_in_pool inp) (in_hedge_k0 inp)"
  from assms obtain initial_usdt lp_value_start s lp_value_end where r:
    "run_loop (in_Pl inp) (in_Pu inp) ?L (in_hedge_k0 inp) (in_threshold inp) ?s0
        (tl (in_price_data inp)) = Inr s"
    "res_rebalance_events res = rebalance_events s"
    "res_summary res =
       \<lparr>sm_rebalance_count = rebalance_count s,
        sm_cumulative_abs_delta_h = cumulative_abs_delta_h s,
        sm_hedge_pnl = cash s + current_H s * snd (last (in_price_data inp)),
        sm_lp_pnl = lp_value_end - lp_value_start,
        sm_total_pnl = lp_value_end - lp_value_start
           + (cash s + current_H s * snd (last (in_price_data inp))),
        sm_final_price = snd (last (in_price_data inp)),
        sm_lp_value_start = lp_value_start,
        sm_lp_value_end = lp_value_end,
        sm_final_hedge_position = current_H s,
        sm_P0 = in_P0 inp,
        sm_Pl = in_Pl inp,
        sm_Pu = in_Pu inp,
        sm_L = ?L,
        sm_eth_in_pool = in_eth_in_pool inp,
        sm_initial_usdt_required = initial_usdt,
        sm_threshold = in_threshold inp,
        sm_hedge_k0 = in_hedge_k0 inp\<rparr>"
    by (rule run_backtest_core_Inr)
  have s0: "rebalance_events ?s0 = []" "anchor_price ?s0 = in_P0 inp"
    "current_H ?s0 = - (in_eth_in_pool inp * in_hedge_k0 inp)"
    "cash ?s0 = in_eth_in_pool inp * in_hedge_k0 inp * in_P0 inp"
    "rebalance_count ?s0 = 0" "cumulative_abs_delta_h ?s0 = 0"
    by (simp_all add: initial_state_def Let_def)
  from run_loop_log [OF r(1)] obtain new where n:
    "rebalance_events s = rebalance_events ?s0 @ new"
    "consistent_log (in_Pl inp) (in_Pu inp) ?L (in_hedge_k0 inp) (in_threshold inp)
       (anchor_price ?s0) (current_H ?s0) (cash ?s0) new"
    "map (\<lambda>e. (ev_ts e, ev_price e)) new
       = triggered_points (in_threshold inp) (anchor_price ?s0) (tl (in_price_data inp))"
    "current_H s = (if new = [] then current_H ?s0 else ev_H_target (last new))"
    "cash s = (if new = [] then cash ?s0 else ev_cash (last new))"
    "rebalance_count s = rebalance_count ?s0 + length new"
    "cumulative_abs_delta_h s = cumulative_abs_delta_h ?s0 + (\<Sum>e\<leftarrow>new. \<bar>ev_delta_H e\<bar>)"
    by blast
  have e: "res_rebalance_events res = new" using r(2) n(1) s0(1) by simp
  show "consistent_log (in_Pl inp) (in_Pu inp) (sm_L (res_summary res))
           (in_hedge_k0 inp) (in_threshold inp) (in_P0 inp)
           (- (in_eth_in_pool inp * in_hedge_k0 inp))
           (in_eth_in_pool inp * in_hedge_k0 inp * in_P0 inp)
           (res_rebalance_events res)"
    using n(2) unfolding e s0 r(3) by simp
  show "map (\<lambda>e. (ev_ts e, ev_price e)) (res_rebalance_events res)
           = triggered_points (in_threshold inp) (in_P0 inp) (tl (in_price_data inp))"
    using n(3) unfolding e s0 .
  show "sm_final_hedge_position (res_summary res)
           = (if res_rebalance_events res = [] then - (in_eth_in_pool inp * in_hedge_k0 inp)
              else ev_H_target (last (res_rebalance_events res)))"
    using n(4) unfolding e s0 r(3) by simp
  show "sm_hedge_pnl (res_summary res)
           = (if res_rebalance_events res = []
              then in_eth_in_pool inp * in_hedge_k0 inp * in_P0 inp
              else ev_cash (last (res_rebalance_events res)))
             + sm_final_hedge_position (res_summary res) * sm_final_price (res_summary res)"
    using n(5) unfolding e s0 r(3) by simp
  show "sm_rebalance_count (res_summary res) = length (res_rebalance_events res)"
    using n(6) unfolding e s0 r(3) by simp
  show "sm_cumulative_abs_delta_h (res_summary res)
           = (\<Sum>e\<leftarrow>res_rebalance_events res. \<bar>ev_delta_H e\<bar>)"
    using n(7) unfolding e s0 r(3) by simp
qed

lemma run_backtest_core_echo:
  assumes "run_backtest_core inp = Inr res"
  shows "sm_P0 (res_summary res) = in_P0 inp"
    and "sm_Pl (res_summary res) = in_Pl inp"
    and "sm_Pu (res_summary res) = in_Pu inp"
    and "sm_eth_in_pool (res_summary res) = in_eth_in_pool inp"
    and "sm_hedge_k0 (res_summary res) = in_hedge_k0 inp"
    and "sm_threshold (res_summary res) = in_threshold inp"
    and "sm_L (res_summary res)
           = in_eth_in_pool inp / (1 / sqrt (in_P0 inp) - 1 / sqrt (in_Pu inp))"
    and "sm_final_price (res_summary res) = snd (last (in_price_data inp))"
  by (rule run_backtest_core_Inr [OF assms], simp)+


section \<open>The summary\<close>

text \<open>
  Claim C8. In the summary of every run that returns, the final price is the price of the
  last point of the window; the hedge PnL is the final cash (the cash of the last
  rebalance, or the initial cash when nothing triggered) plus the final hedge position
  times the final price; the LP PnL is \<open>lp_value\<close> at the final price minus \<open>lp_value\<close> at
  \<open>P0\<close>, both at the run's liquidity; and the total PnL is the sum of the two.
\<close>

theorem summary_identities:
  assumes "run_backtest env csv_file start_ts end_ts Pl Pu eth_in_pool hedge_k0 threshold = Inr res"
  shows "\<exists>inp. run_backtest_inputs env csv_file start_ts end_ts Pl Pu eth_in_pool hedge_k0 threshold
            = Inr inp
     \<and> sm_final_price (res_summary res) = snd (last (in_price_data inp))
     \<and> sm_final_hedge_position (res_summary res)
         = (if res_rebalance_events res = [] then - (in_eth_in_pool inp * in_hedge_k0 inp)
            else ev_H_target (last (res_rebalance_events res)))
     \<and> sm_hedge_pnl (res_summary res)
         = (if res_rebalance_events res = []
            then in_eth_in_pool inp * in_hedge_k0 inp * in_P0 inp
            else ev_cash (last (res_rebalance_events res)))
           + sm_final_hedge_position (res_summary res) * sm_final_price (res_summary res)
     \<and> sm_L (res_summary res)
         = in_eth_in_pool inp / (1 / sqrt (in_P0 inp) - 1 / sqrt (in_Pu inp))
     \<and> lp_value (in_P0 inp) (in_Pl inp) (in_Pu inp) (sm_L (res_summary res))
         = Inr (sm_lp_value_start (res_summary res))
     \<and> lp_value (sm_final_price (res_summary res)) (in_Pl inp) (in_Pu inp)
           (sm_L (res_summary res))
         = Inr (sm_lp_value_end (res_summary res))
     \<and> sm_lp_pnl (res_summary res)
         = sm_lp_value_end (res_summary res) - sm_lp_value_start (res_summary res)
     \<and> sm_total_pnl (res_summary res)
         = sm_hedge_pnl (res_summary res) + sm_lp_pnl (res_summary res)"
proof -
  from assms obtain inp where i:
    "run_backtest_inputs env csv_file start_ts end_ts Pl Pu eth_in_pool hedge_k0 threshold = Inr inp"
    "run_backtest_core inp = Inr res"
    by (rule run_backtest_Inr)
  have "lp_value (in_P0 inp) (in_Pl inp) (in_Pu inp) (sm_L (res_summary res))
         = Inr (sm_lp_value_start (res_summary res))"
    by (rule run_backtest_core_Inr [OF i(2)]) simp
  moreover have "lp_value (sm_final_price (res_summary res)) (in_Pl inp) (in_Pu inp)
           (sm_L (res_summary res))
         = Inr (sm_lp_value_end (res_summary res))"
    by (rule run_backtest_core_Inr [OF i(2)]) simp
  moreover have "sm_lp_pnl (res_summary res)
         = sm_lp_value_end (res_summary res) - sm_lp_value_start (res_summary res)"
    by (rule run_backtest_core_Inr [OF i(2)]) simp
  moreover have "sm_total_pnl (res_summary res)
         = sm_hedge_pnl (res_summary res) + sm_lp_pnl (res_summary res)"
    by (rule run_backtest_core_Inr [OF i(2)]) simp
  ultimately show ?thesis
    using i(1) run_backtest_core_log(3,4) [OF i(2)] run_backtest_core_echo(7,8) [OF i(2)]
    by (intro exI [of _ inp] conjI)
qed

theorem summary_identities_witness:
  "\<exists>res. run_backtest example_env None None None None None None None None = Inr res
     \<and> sm_final_price (res_summary res) = 3200
     \<and> sm_total_pnl (res_summary res)
         = sm_hedge_pnl (res_summary res) + sm_lp_pnl (res_summary res)
     \<and> sm_hedge_pnl (res_summary res)
         = (if res_rebalance_events res = [] then 1 * (7 / 10) * 2900
            else ev_cash (last (res_rebalance_events res)))
           + sm_final_hedge_position (res_summary res) * 3200"
proof -
  from example_run_returns obtain res where
    r: "run_backtest example_env None None None None None None None None = Inr res" ..
  from summary_identities [OF r] show ?thesis
    using r by (auto simp: example_inputs example_rows_def)
qed


section \<open>The hedge is never long\<close>





section \<open>Facts about the example run\<close>

lemma example_amounts: "amounts_from_L 4 1 9 6 = Inr (1, 6)"
  by (simp add: amounts_from_L_def Let_def sqrt_9)

lemma example_tick_anchor:
  "anchor_price (initial_state 2 1 (1 / 2)) \<noteq> 0"
  "\<not> \<bar>4 - anchor_price (initial_state 2 1 (1 / 2))\<bar> / anchor_price (initial_state 2 1 (1 / 2))
       < 1 / 20"
  "\<bar>2 - anchor_price (initial_state 2 1 (1 / 2))\<bar> / anchor_price (initial_state 2 1 (1 / 2))
       < 1 / 20"
  by (simp_all add: initial_state_def Let_def)

lemma example_triggered:
  "triggered_points (1 / 20) 2900 (tl (tl example_rows)) = [(1762491600000000, 3050)]"
  by (simp add: example_rows_def)

section \<open>The trigger rule\<close>

text \<open>
  Claim C3. A tick that returns leaves the state unchanged when the relative move from
  the anchor is below the threshold, and otherwise changes it, appends one event at the
  tick's price and sets the anchor to that price. So in every run that returns, the
  events are exactly the points after the first at which the trigger rule fires, every
  event's move is at least the threshold, and every event's anchor-before is the price
  of the event before it (\<open>P0\<close> for the first event).
\<close>

theorem trigger_rule:
  "(rebalance_tick Pl Pu L hedge_k0 threshold s (ts, P_now) = Inr s' \<longrightarrow>
      (if \<bar>P_now - anchor_price s\<bar> / anchor_price s < threshold then s' = s
       else s' \<noteq> s \<and> anchor_price s' = P_now
          \<and> (\<exists>e. rebalance_events s' = rebalance_events s @ [e]
                \<and> ev_ts e = ts \<and> ev_price e = P_now
                \<and> ev_anchor_before e = anchor_price s
                \<and> ev_move e = \<bar>P_now - anchor_price s\<bar> / anchor_price s)))
   \<and> (run_backtest env csv_file start_ts end_ts Pl_arg Pu_arg eth_arg k0_arg threshold_arg
         = Inr res \<longrightarrow>
       (\<exists>inp. run_backtest_inputs env csv_file start_ts end_ts Pl_arg Pu_arg eth_arg k0_arg
                  threshold_arg = Inr inp
          \<and> map (\<lambda>e. (ev_ts e, ev_price e)) (res_rebalance_events res)
              = triggered_points (in_threshold inp) (in_P0 inp) (tl (in_price_data inp))
          \<and> (\<forall>i<length (res_rebalance_events res).
                in_threshold inp \<le> ev_move (res_rebalance_events res ! i)
                \<and> ev_move (res_rebalance_events res ! i)
                    = \<bar>ev_price (res_rebalance_events res ! i)
                        - ev_anchor_before (res_rebalance_events res ! i)\<bar>
                      / ev_anchor_before (res_rebalance_events res ! i)
                \<and> ev_anchor_before (res_rebalance_events res ! i)
                    = (if i = 0 then in_P0 inp
                       else ev_price (res_rebalance_events res ! (i - 1))))))"
proof (intro conjI impI)
  assume t: "rebalance_tick Pl Pu L hedge_k0 threshold s (ts, P_now) = Inr s'"
  have a: "anchor_price s \<noteq> 0" using rebalance_tick_Inr(1) [OF t] .
  show "if \<bar>P_now - anchor_price s\<bar> / anchor_price s < threshold then s' = s
       else s' \<noteq> s \<and> anchor_price s' = P_now
          \<and> (\<exists>e. rebalance_events s' = rebalance_events s @ [e]
                \<and> ev_ts e = ts \<and> ev_price e = P_now
                \<and> ev_anchor_before e = anchor_price s
                \<and> ev_move e = \<bar>P_now - anchor_price s\<bar> / anchor_price s)"
  proof (cases "\<bar>P_now - anchor_price s\<bar> / anchor_price s < threshold")
    case True
    then show ?thesis using rebalance_tick_Inr(2) [OF t] by simp
  next
    case False
    then obtain eth_now usdt_now where
      am: "amounts_from_L P_now Pl Pu L = Inr (eth_now, usdt_now)"
      using rebalance_tick_Inr(3) [OF t] by blast
    note eq = t [unfolded rebalance_tick_trigger [OF a False am]]
    have ev: "\<exists>e. rebalance_events s' = rebalance_events s @ [e]
                \<and> ev_ts e = ts \<and> ev_price e = P_now
                \<and> ev_anchor_before e = anchor_price s
                \<and> ev_move e = \<bar>P_now - anchor_price s\<bar> / anchor_price s"
      using eq by auto
    then have "length (rebalance_events s') \<noteq> length (rebalance_events s)" by auto
    then have "s' \<noteq> s" by auto
    moreover have "anchor_price s' = P_now" using eq by auto
    ultimately show ?thesis using False ev by simp
  qed
next
  assume r: "run_backtest env csv_file start_ts end_ts Pl_arg Pu_arg eth_arg k0_arg threshold_arg
         = Inr res"
  then obtain inp where i:
    "run_backtest_inputs env csv_file start_ts end_ts Pl_arg Pu_arg eth_arg k0_arg threshold_arg
       = Inr inp"
    "run_backtest_core inp = Inr res"
    by (rule run_backtest_Inr)
  note log = run_backtest_core_log(1) [OF i(2)]
  have "in_threshold inp \<le> ev_move (res_rebalance_events res ! i)
                \<and> ev_move (res_rebalance_events res ! i)
                    = \<bar>ev_price (res_rebalance_events res ! i)
                        - ev_anchor_before (res_rebalance_events res ! i)\<bar>
                      / ev_anchor_before (res_rebalance_events res ! i)
                \<and> ev_anchor_before (res_rebalance_events res ! i)
                    = (if i = 0 then in_P0 inp
                       else ev_price (res_rebalance_events res ! (i - 1)))"
    if "i < length (res_rebalance_events res)" for i
    using consistent_log_nth [OF log that] by simp
  then show "\<exists>inp. run_backtest_inputs env csv_file start_ts end_ts Pl_arg Pu_arg eth_arg k0_arg
                  threshold_arg = Inr inp
          \<and> map (\<lambda>e. (ev_ts e, ev_price e)) (res_rebalance_events res)
              = triggered_points (in_threshold inp) (in_P0 inp) (tl (in_price_data inp))
          \<and> (\<forall>i<length (res_rebalance_events res).
                in_threshold inp \<le> ev_move (res_rebalance_events res ! i)
                \<and> ev_move (res_rebalance_events res ! i)
                    = \<bar>ev_price (res_rebalance_events res ! i)
                        - ev_anchor_before (res_rebalance_events res ! i)\<bar>
                      / ev_anchor_before (res_rebalance_events res ! i)
                \<and> ev_anchor_before (res_rebalance_events res ! i)
                    = (if i = 0 then in_P0 inp
                       else ev_price (res_rebalance_events res ! (i - 1))))"
    using i(1) run_backtest_core_log(2) [OF i(2)] by blast
qed


theorem trigger_rule_witness:
  "rebalance_tick 1 9 6 (1 / 2) (1 / 20) (initial_state 2 1 (1 / 2)) (0, 2)
      = Inr (initial_state 2 1 (1 / 2))
   \<and> (\<exists>s'. rebalance_tick 1 9 6 (1 / 2) (1 / 20) (initial_state 2 1 (1 / 2)) (0, 4) = Inr s'
          \<and> s' \<noteq> initial_state 2 1 (1 / 2) \<and> anchor_price s' = 4)
   \<and> (\<exists>res. run_backtest example_env None None None None None None None None = Inr res
          \<and> map (\<lambda>e. (ev_ts e, ev_price e)) (res_rebalance_events res)
              = [(1762491600000000, 3050)]
          \<and> (\<forall>i<length (res_rebalance_events res).
                1 / 20 \<le> ev_move (res_rebalance_events res ! i)
                \<and> ev_anchor_before (res_rebalance_events res ! i)
                    = (if i = 0 then 2900 else ev_price (res_rebalance_events res ! (i - 1)))))"
proof (intro conjI)
  show "rebalance_tick 1 9 6 (1 / 2) (1 / 20) (initial_state 2 1 (1 / 2)) (0, 2)
      = Inr (initial_state 2 1 (1 / 2))"
    by (rule rebalance_tick_skip [OF example_tick_anchor(1,3)])
next
  obtain s' where
    t: "rebalance_tick 1 9 6 (1 / 2) (1 / 20) (initial_state 2 1 (1 / 2)) (0, 4) = Inr s'"
    using rebalance_tick_trigger [OF example_tick_anchor(1,2) example_amounts, of "1 / 2" 0]
    by simp
  from trigger_rule [of 1 9 6 "1 / 2" "1 / 20" "initial_state 2 1 (1 / 2)" 0 4 s'] t
    example_tick_anchor(2)
  show "\<exists>s'. rebalance_tick 1 9 6 (1 / 2) (1 / 20) (initial_state 2 1 (1 / 2)) (0, 4) = Inr s'
          \<and> s' \<noteq> initial_state 2 1 (1 / 2) \<and> anchor_price s' = 4"
    by auto
next
  from example_run_returns obtain res where
    r: "run_backtest example_env None None None None None None None None = Inr res" ..
  have "\<exists>inp. run_backtest_inputs example_env None None None None None None None None = Inr inp
          \<and> map (\<lambda>e. (ev_ts e, ev_price e)) (res_rebalance_events res)
              = triggered_points (in_threshold inp) (in_P0 inp) (tl (in_price_data inp))
          \<and> (\<forall>i<length (res_rebalance_events res).
                in_threshold inp \<le> ev_move (res_rebalance_events res ! i)
                \<and> ev_move (res_rebalance_events res ! i)
                    = \<bar>ev_price (res_rebalance_events res ! i)
                        - ev_anchor_before (res_rebalance_events res ! i)\<bar>
                      / ev_anchor_before (res_rebalance_events res ! i)
                \<and> ev_anchor_before (res_rebalance_events res ! i)
                    = (if i = 0 then in_P0 inp
                       else ev_price (res_rebalance_events res ! (i - 1))))"
    using trigger_rule
      [of _ _ _ _ _ _ _ _ _ example_env None None None None None None None None res] r
    by blast
  then obtain inp where i:
    "run_backtest_inputs example_env None None None None None None None None = Inr inp"
    "map (\<lambda>e. (ev_ts e, ev_price e)) (res_rebalance_events res)
       = triggered_points (in_threshold inp) (in_P0 inp) (tl (in_price_data inp))"
    "\<forall>i<length (res_rebalance_events res).
        in_threshold inp \<le> ev_move (res_rebalance_events res ! i)
        \<and> ev_move (res_rebalance_events res ! i)
            = \<bar>ev_price (res_rebalance_events res ! i)
                - ev_anchor_before (res_rebalance_events res ! i)\<bar>
              / ev_anchor_before (res_rebalance_events res ! i)
        \<and> ev_anchor_before (res_rebalance_events res ! i)
            = (if i = 0 then in_P0 inp else ev_price (res_rebalance_events res ! (i - 1)))"
    by blast
  have inp: "in_threshold inp = 1 / 20" "in_P0 inp = 2900"
    "in_price_data inp = tl example_rows"
    using i(1) by (auto simp: example_inputs)
  have m: "map (\<lambda>e. (ev_ts e, ev_price e)) (res_rebalance_events res)
          = [(1762491600000000, 3050)]"
    using i(2) unfolding inp example_triggered .
  have q: "\<forall>i<length (res_rebalance_events res).
                1 / 20 \<le> ev_move (res_rebalance_events res ! i)
                \<and> ev_anchor_before (res_rebalance_events res ! i)
                    = (if i = 0 then 2900 else ev_price (res_rebalance_events res ! (i - 1)))"
  proof (intro allI impI)
    fix i
    assume l: "i < length (res_rebalance_events res)"
    from i(3) [unfolded inp, rule_format, OF l]
    show "1 / 20 \<le> ev_move (res_rebalance_events res ! i)
                \<and> ev_anchor_before (res_rebalance_events res ! i)
                    = (if i = 0 then 2900 else ev_price (res_rebalance_events res ! (i - 1)))"
      by (elim conjE) (intro conjI; assumption)
  qed
  show "\<exists>res. run_backtest example_env None None None None None None None None = Inr res
          \<and> map (\<lambda>e. (ev_ts e, ev_price e)) (res_rebalance_events res)
              = [(1762491600000000, 3050)]
          \<and> (\<forall>i<length (res_rebalance_events res).
                1 / 20 \<le> ev_move (res_rebalance_events res ! i)
                \<and> ev_anchor_before (res_rebalance_events res ! i)
                    = (if i = 0 then 2900 else ev_price (res_rebalance_events res ! (i - 1))))"
    using r m q by (intro exI [of _ res] conjI)
qed

section \<open>The rebalance step\<close>

text \<open>
  Claim C2. A triggered tick at which \<open>amounts_from_L\<close> returns \<open>(eth_now, usdt_now)\<close>
  returns a state whose hedge position is the target \<open>- (eth_now * k)\<close>, with \<open>k\<close> the
  value of \<open>calculate_k\<close> at the tick's price, and whose cash is the old cash minus
  \<open>(target - position before) * price\<close>; the appended event records that cash, and its
  mark-to-market PnL is the new cash plus the new position times the price. In a run
  that returns, every point after the first at which the trigger rule fires has its
  event, in order, and no other event exists; each event carries these quantities,
  computed at its point's price from the position and cash left by the event before it
  (the initial hedge for the first event); and the position the run ends with is the
  target of the last event.
\<close>

theorem rebalance_step_exact:
  "(anchor_price s \<noteq> 0 \<and> \<not> \<bar>P_now - anchor_price s\<bar> / anchor_price s < threshold
      \<and> amounts_from_L P_now Pl Pu L = Inr (eth_now, usdt_now) \<longrightarrow>
      (\<exists>s' e. rebalance_tick Pl Pu L hedge_k0 threshold s (ts, P_now) = Inr s'
         \<and> rebalance_events s' = rebalance_events s @ [e]
         \<and> ev_H_before e = current_H s
         \<and> ev_H_target e = - (eth_now * calculate_k P_now Pl Pu hedge_k0)
         \<and> cash s' = cash s - (ev_H_target e - ev_H_before e) * P_now
         \<and> current_H s' = ev_H_target e
         \<and> ev_cash e = cash s'
         \<and> ev_hedge_pnl_mtm e = cash s' + current_H s' * P_now))
   \<and> (run_backtest env csv_file start_ts end_ts Pl_arg Pu_arg eth_arg k0_arg threshold_arg
         = Inr res \<longrightarrow>
       (\<exists>inp. run_backtest_inputs env csv_file start_ts end_ts Pl_arg Pu_arg eth_arg k0_arg
                  threshold_arg = Inr inp
          \<and> map (\<lambda>e. (ev_ts e, ev_price e)) (res_rebalance_events res)
              = triggered_points (in_threshold inp) (in_P0 inp) (tl (in_price_data inp))
          \<and> sm_rebalance_count (res_summary res) = length (res_rebalance_events res)
          \<and> sm_final_hedge_position (res_summary res)
              = (if res_rebalance_events res = []
                 then - (in_eth_in_pool inp * in_hedge_k0 inp)
                 else ev_H_target (last (res_rebalance_events res)))
          \<and> (\<forall>i<length (res_rebalance_events res).
                (\<exists>usdt. amounts_from_L (ev_price (res_rebalance_events res ! i))
                          (in_Pl inp) (in_Pu inp) (sm_L (res_summary res))
                        = Inr (ev_eth_now (res_rebalance_events res ! i), usdt))
                \<and> ev_k (res_rebalance_events res ! i)
                    = calculate_k (ev_price (res_rebalance_events res ! i))
                        (in_Pl inp) (in_Pu inp) (in_hedge_k0 inp)
                \<and> ev_H_before (res_rebalance_events res ! i)
                    = (if i = 0 then - (in_eth_in_pool inp * in_hedge_k0 inp)
                       else ev_H_target (res_rebalance_events res ! (i - 1)))
                \<and> ev_H_target (res_rebalance_events res ! i)
                    = - (ev_eth_now (res_rebalance_events res ! i)
                          * ev_k (res_rebalance_events res ! i))
                \<and> ev_cash (res_rebalance_events res ! i)
                    = (if i = 0 then in_eth_in_pool inp * in_hedge_k0 inp * in_P0 inp
                       else ev_cash (res_rebalance_events res ! (i - 1)))
                      - (ev_H_target (res_rebalance_events res ! i)
                          - ev_H_before (res_rebalance_events res ! i))
                        * ev_price (res_rebalance_events res ! i)
                \<and> ev_hedge_pnl_mtm (res_rebalance_events res ! i)
                    = ev_cash (res_rebalance_events res ! i)
                      + ev_H_target (res_rebalance_events res ! i)
                        * ev_price (res_rebalance_events res ! i))))"
proof (rule conjI; intro impI)
  assume h: "anchor_price s \<noteq> 0 \<and> \<not> \<bar>P_now - anchor_price s\<bar> / anchor_price s < threshold
      \<and> amounts_from_L P_now Pl Pu L = Inr (eth_now, usdt_now)"
  then have a: "anchor_price s \<noteq> 0"
    and m: "\<not> \<bar>P_now - anchor_price s\<bar> / anchor_price s < threshold"
    and am: "amounts_from_L P_now Pl Pu L = Inr (eth_now, usdt_now)"
    by blast+
  show "\<exists>s' e. rebalance_tick Pl Pu L hedge_k0 threshold s (ts, P_now) = Inr s'
         \<and> rebalance_events s' = rebalance_events s @ [e]
         \<and> ev_H_before e = current_H s
         \<and> ev_H_target e = - (eth_now * calculate_k P_now Pl Pu hedge_k0)
         \<and> cash s' = cash s - (ev_H_target e - ev_H_before e) * P_now
         \<and> current_H s' = ev_H_target e
         \<and> ev_cash e = cash s'
         \<and> ev_hedge_pnl_mtm e = cash s' + current_H s' * P_now"
    unfolding rebalance_tick_trigger [OF a m am] by simp
next
  assume r: "run_backtest env csv_file start_ts end_ts Pl_arg Pu_arg eth_arg k0_arg threshold_arg
         = Inr res"
  from r obtain inp where i:
    "run_backtest_inputs env csv_file start_ts end_ts Pl_arg Pu_arg eth_arg k0_arg threshold_arg
       = Inr inp"
    "run_backtest_core inp = Inr res"
    by (rule run_backtest_Inr)
  note log = run_backtest_core_log [OF i(2)]
  have ev: "(\<exists>usdt. amounts_from_L (ev_price (res_rebalance_events res ! i))
                          (in_Pl inp) (in_Pu inp) (sm_L (res_summary res))
                        = Inr (ev_eth_now (res_rebalance_events res ! i), usdt))
                \<and> ev_k (res_rebalance_events res ! i)
                    = calculate_k (ev_price (res_rebalance_events res ! i))
                        (in_Pl inp) (in_Pu inp) (in_hedge_k0 inp)
                \<and> ev_H_before (res_rebalance_events res ! i)
                    = (if i = 0 then - (in_eth_in_pool inp * in_hedge_k0 inp)
                       else ev_H_target (res_rebalance_events res ! (i - 1)))
                \<and> ev_H_target (res_rebalance_events res ! i)
                    = - (ev_eth_now (res_rebalance_events res ! i)
                          * ev_k (res_rebalance_events res ! i))
                \<and> ev_cash (res_rebalance_events res ! i)
                    = (if i = 0 then in_eth_in_pool inp * in_hedge_k0 inp * in_P0 inp
                       else ev_cash (res_rebalance_events res ! (i - 1)))
                      - (ev_H_target (res_rebalance_events res ! i)
                          - ev_H_before (res_rebalance_events res ! i))
                        * ev_price (res_rebalance_events res ! i)
                \<and> ev_hedge_pnl_mtm (res_rebalance_events res ! i)
                    = ev_cash (res_rebalance_events res ! i)
                      + ev_H_target (res_rebalance_events res ! i)
                        * ev_price (res_rebalance_events res ! i)"
    if l: "i < length (res_rebalance_events res)" for i
    using consistent_log_nth [OF log(1) l]
    unfolding consistent_log.simps by (cases "i = 0") auto
  show "\<exists>inp. run_backtest_inputs env csv_file start_ts end_ts Pl_arg Pu_arg eth_arg k0_arg
                  threshold_arg = Inr inp
          \<and> map (\<lambda>e. (ev_ts e, ev_price e)) (res_rebalance_events res)
              = triggered_points (in_threshold inp) (in_P0 inp) (tl (in_price_data inp))
          \<and> sm_rebalance_count (res_summary res) = length (res_rebalance_events res)
          \<and> sm_final_hedge_position (res_summary res)
              = (if res_rebalance_events res = []
                 then - (in_eth_in_pool inp * in_hedge_k0 inp)
                 else ev_H_target (last (res_rebalance_events res)))
          \<and> (\<forall>i<length (res_rebalance_events res).
                (\<exists>usdt. amounts_from_L (ev_price (res_rebalance_events res ! i))
                          (in_Pl inp) (in_Pu inp) (sm_L (res_summary res))
                        = Inr (ev_eth_now (res_rebalance_events res ! i), usdt))
                \<and> ev_k (res_rebalance_events res ! i)
                    = calculate_k (ev_price (res_rebalance_events res ! i))
                        (in_Pl inp) (in_Pu inp) (in_hedge_k0 inp)
                \<and> ev_H_before (res_rebalance_events res ! i)
                    = (if i = 0 then - (in_eth_in_pool inp * in_hedge_k0 inp)
                       else ev_H_target (res_rebalance_events res ! (i - 1)))
                \<and> ev_H_target (res_rebalance_events res ! i)
                    = - (ev_eth_now (res_rebalance_events res ! i)
                          * ev_k (res_rebalance_events res ! i))
                \<and> ev_cash (res_rebalance_events res ! i)
                    = (if i = 0 then in_eth_in_pool inp * in_hedge_k0 inp * in_P0 inp
                       else ev_cash (res_rebalance_events res ! (i - 1)))
                      - (ev_H_target (res_rebalance_events res ! i)
                          - ev_H_before (res_rebalance_events res ! i))
                        * ev_price (res_rebalance_events res ! i)
                \<and> ev_hedge_pnl_mtm (res_rebalance_events res ! i)
                    = ev_cash (res_rebalance_events res ! i)
                      + ev_H_target (res_rebalance_events res ! i)
                        * ev_price (res_rebalance_events res ! i))"
    by (intro exI [of _ inp] conjI;
        (rule i(1) log(2) log(5) log(3) | (intro allI impI, rule ev, assumption)))
qed

text \<open>
  The example run has one triggered point, the close 3050 (a move of 150 from the anchor
  2900), and so one event: it closes part of the initial short of \<open>0.7\<close> at 3050.
\<close>

theorem rebalance_step_exact_witness:
  "(\<exists>s'. rebalance_tick 1 9 6 (1 / 2) (1 / 20) (initial_state 2 1 (1 / 2)) (0, 4) = Inr s'
        \<and> current_H s' = - (5 / 8) \<and> cash s' = 3 / 2)
   \<and> (\<exists>res. run_backtest example_env None None None None None None None None = Inr res
        \<and> map (\<lambda>e. (ev_ts e, ev_price e)) (res_rebalance_events res)
            = [(1762491600000000, 3050)]
        \<and> sm_final_hedge_position (res_summary res)
            = ev_H_target (res_rebalance_events res ! 0)
        \<and> ev_H_before (res_rebalance_events res ! 0) = - (7 / 10)
        \<and> ev_H_target (res_rebalance_events res ! 0)
            = - (ev_eth_now (res_rebalance_events res ! 0) * calculate_k 3050 2651 3498 (7 / 10))
        \<and> ev_cash (res_rebalance_events res ! 0)
            = 2030 - (ev_H_target (res_rebalance_events res ! 0) + 7 / 10) * 3050
        \<and> ev_hedge_pnl_mtm (res_rebalance_events res ! 0)
            = ev_cash (res_rebalance_events res ! 0)
              + ev_H_target (res_rebalance_events res ! 0) * 3050)"
proof (rule conjI)
  have k: "calculate_k 4 1 9 (1 / 2) = 5 / 8"
    by (simp add: calculate_k_def Let_def)
  have s0: "current_H (initial_state 2 1 (1 / 2)) = - (1 / 2)"
    "cash (initial_state 2 1 (1 / 2)) = 1"
    by (simp_all add: initial_state_def Let_def)
  have pre: "anchor_price (initial_state 2 1 (1 / 2)) \<noteq> 0
      \<and> \<not> \<bar>4 - anchor_price (initial_state 2 1 (1 / 2))\<bar>
            / anchor_price (initial_state 2 1 (1 / 2)) < 1 / 20
      \<and> amounts_from_L 4 1 9 6 = Inr (1, 6)"
    using example_tick_anchor(1,2) example_amounts by (intro conjI)
  from rebalance_step_exact
    [of "initial_state 2 1 (1 / 2)" 4 "1 / 20" 1 9 6 1 6 "1 / 2" 0,
      THEN conjunct1, THEN mp, OF pre]
  obtain s' e where
    "rebalance_tick 1 9 6 (1 / 2) (1 / 20) (initial_state 2 1 (1 / 2)) (0, 4) = Inr s'"
    "ev_H_before (e::event) = current_H (initial_state 2 1 (1 / 2))"
    "ev_H_target e = - (1 * calculate_k 4 1 9 (1 / 2))"
    "cash s' = cash (initial_state 2 1 (1 / 2)) - (ev_H_target e - ev_H_before e) * 4"
    "current_H s' = ev_H_target e"
    by blast
  then show "\<exists>s'. rebalance_tick 1 9 6 (1 / 2) (1 / 20) (initial_state 2 1 (1 / 2)) (0, 4) = Inr s'
        \<and> current_H s' = - (5 / 8) \<and> cash s' = 3 / 2"
    by (intro exI [of _ s']) (simp add: k s0)
next
  let ?evs = "res_rebalance_events"
  from example_run_returns obtain res where
    r: "run_backtest example_env None None None None None None None None = Inr res" ..
  from rebalance_step_exact
      [of _ _ _ _ _ _ _ _ _ _ example_env None None None None None None None None res,
        THEN conjunct2, THEN mp, OF r]
  obtain inp where i:
    "run_backtest_inputs example_env None None None None None None None None = Inr inp"
    "map (\<lambda>e. (ev_ts e, ev_price e)) (?evs res)
       = triggered_points (in_threshold inp) (in_P0 inp) (tl (in_price_data inp))"
    "sm_final_hedge_position (res_summary res)
       = (if ?evs res = [] then - (in_eth_in_pool inp * in_hedge_k0 inp)
          else ev_H_target (last (?evs res)))"
    "\<forall>i<length (?evs res).
        (\<exists>usdt. amounts_from_L (ev_price (?evs res ! i)) (in_Pl inp) (in_Pu inp)
                  (sm_L (res_summary res)) = Inr (ev_eth_now (?evs res ! i), usdt))
        \<and> ev_k (?evs res ! i)
            = calculate_k (ev_price (?evs res ! i)) (in_Pl inp) (in_Pu inp) (in_hedge_k0 inp)
        \<and> ev_H_before (?evs res ! i)
            = (if i = 0 then - (in_eth_in_pool inp * in_hedge_k0 inp)
               else ev_H_target (?evs res ! (i - 1)))
        \<and> ev_H_target (?evs res ! i) = - (ev_eth_now (?evs res ! i) * ev_k (?evs res ! i))
        \<and> ev_cash (?evs res ! i)
            = (if i = 0 then in_eth_in_pool inp * in_hedge_k0 inp * in_P0 inp
               else ev_cash (?evs res ! (i - 1)))
              - (ev_H_target (?evs res ! i) - ev_H_before (?evs res ! i)) * ev_price (?evs res ! i)
        \<and> ev_hedge_pnl_mtm (?evs res ! i)
            = ev_cash (?evs res ! i) + ev_H_target (?evs res ! i) * ev_price (?evs res ! i)"
    by blast
  have inp: "inp = \<lparr>in_price_data = tl example_rows, in_P0 = 2900, in_Pl = 2651, in_Pu = 3498,
          in_eth_in_pool = 1, in_hedge_k0 = 7 / 10, in_threshold = 1 / 20\<rparr>"
    using i(1) by (simp add: example_inputs)
  have m: "map (\<lambda>e. (ev_ts e, ev_price e)) (?evs res) = [(1762491600000000, 3050)]"
    using i(2) unfolding inp by (simp add: example_triggered)
  then obtain e where e: "?evs res = [e]" "ev_price e = 3050" by auto
  from i(4) [rule_format, of 0] e
  have q: "ev_k e = calculate_k 3050 2651 3498 (7 / 10)"
    "ev_H_before e = - (7 / 10)"
    "ev_H_target e = - (ev_eth_now e * ev_k e)"
    "ev_cash e = 7 / 10 * 2900 - (ev_H_target e - ev_H_before e) * 3050"
    "ev_hedge_pnl_mtm e = ev_cash e + ev_H_target e * 3050"
    unfolding inp by simp_all
  show "\<exists>res. run_backtest example_env None None None None None None None None = Inr res
        \<and> map (\<lambda>e. (ev_ts e, ev_price e)) (res_rebalance_events res)
            = [(1762491600000000, 3050)]
        \<and> sm_final_hedge_position (res_summary res)
            = ev_H_target (res_rebalance_events res ! 0)
        \<and> ev_H_before (res_rebalance_events res ! 0) = - (7 / 10)
        \<and> ev_H_target (res_rebalance_events res ! 0)
            = - (ev_eth_now (res_rebalance_events res ! 0) * calculate_k 3050 2651 3498 (7 / 10))
        \<and> ev_cash (res_rebalance_events res ! 0)
            = 2030 - (ev_H_target (res_rebalance_events res ! 0) + 7 / 10) * 3050
        \<and> ev_hedge_pnl_mtm (res_rebalance_events res ! 0)
            = ev_cash (res_rebalance_events res ! 0)
              + ev_H_target (res_rebalance_events res ! 0) * 3050"
    using r m i(3) q by (intro exI [of _ res]) (simp add: e)
qed

section \<open>What a run reads from the config module\<close>

lemma example_inputs_explicit:
  "run_backtest_inputs example_env (Some ''eth_1h.csv'') (Some 1762473600000000)
      (Some 1767657600000000) (Some 2651) (Some 3498) (Some 1) (Some (7 / 10)) (Some (1 / 20)) =
     Inr \<lparr>in_price_data = tl example_rows, in_P0 = 2900, in_Pl = 2651, in_Pu = 3498,
          in_eth_in_pool = 1, in_hedge_k0 = 7 / 10, in_threshold = 1 / 20\<rparr>"
  by (simp add: run_backtest_inputs_def example_env_def frozen_config_def example_rows_def
      load_eth_1h_csv_def filter_period_def Let_def)

lemma fixed_inputs_explicit:
  "run_backtest_inputs fixed_env (Some ''eth_1h.csv'') (Some 1762473600000000)
      (Some 1767657600000000) (Some 2651) (Some 3498) (Some 1) (Some (7 / 10)) (Some (1 / 20)) =
     Inr \<lparr>in_price_data = tl example_rows, in_P0 = 3150, in_Pl = 2651, in_Pu = 3498,
          in_eth_in_pool = 1, in_hedge_k0 = 7 / 10, in_threshold = 1 / 20\<rparr>"
  by (simp add: run_backtest_inputs_def fixed_env_def example_env_def frozen_config_def
      example_rows_def load_eth_1h_csv_def filter_period_def Let_def)

text \<open>
  Two calls with the same explicit arguments and the same file, under configs that differ
  only in \<open>P0_MODE\<close>, return different results: \<open>P0\<close> is the first price of the window
  (2900) in one and the config's \<open>P0\<close> (3150) in the other.
\<close>

theorem config_P0_MODE_counterexample:
  "run_backtest example_env (Some ''eth_1h.csv'') (Some 1762473600000000)
      (Some 1767657600000000) (Some 2651) (Some 3498) (Some 1) (Some (7 / 10)) (Some (1 / 20))
   \<noteq> run_backtest fixed_env (Some ''eth_1h.csv'') (Some 1762473600000000)
      (Some 1767657600000000) (Some 2651) (Some 3498) (Some 1) (Some (7 / 10)) (Some (1 / 20))"
proof -
  let ?a = "\<lparr>in_price_data = tl example_rows, in_P0 = 2900, in_Pl = 2651, in_Pu = 3498,
          in_eth_in_pool = 1, in_hedge_k0 = 7 / 10, in_threshold = 1 / 20\<rparr>"
  let ?b = "\<lparr>in_price_data = tl example_rows, in_P0 = 3150, in_Pl = 2651, in_Pu = 3498,
          in_eth_in_pool = 1, in_hedge_k0 = 7 / 10, in_threshold = 1 / 20\<rparr>"
  obtain ra where ra: "run_backtest_core ?a = Inr ra"
    using run_backtest_core_returns [of ?a] by (auto simp: example_rows_def)
  obtain rb where rb: "run_backtest_core ?b = Inr rb"
    using run_backtest_core_returns [of ?b] by (auto simp: example_rows_def)
  have "sm_P0 (res_summary ra) = 2900" "sm_P0 (res_summary rb) = 3150"
    using run_backtest_core_echo(1) [OF ra] run_backtest_core_echo(1) [OF rb] by simp_all
  then have "ra \<noteq> rb" by auto
  then show ?thesis
    by (simp add: run_backtest_def example_inputs_explicit fixed_inputs_explicit ra rb)
qed

text \<open>
  Claim C7, amended. With every argument of \<open>run_backtest\<close> given explicitly (and a
  non-empty file name), the result depends on the config module only through the
  initial-price policy: two calls with equal arguments and equal files return the same
  result whenever the two configs have the same \<open>P0_MODE\<close> and, unless that is
  \<open>"from_data"\<close>, the same \<open>P0\<close>. No other config value and no other part of the
  environment is read.
\<close>

theorem explicit_run_reads_only_P0_policy:
  assumes "csv_file \<noteq> []"
    and "files env1 = files env2"
    and "cfg_P0_MODE (cfg env1) = cfg_P0_MODE (cfg env2)"
    and "cfg_P0_MODE (cfg env1) \<noteq> Some ''from_data'' \<longrightarrow> cfg_P0 (cfg env1) = cfg_P0 (cfg env2)"
  shows "run_backtest env1 (Some csv_file) (Some start_ts) (Some end_ts) (Some Pl) (Some Pu)
           (Some eth_in_pool) (Some hedge_k0) (Some threshold)
       = run_backtest env2 (Some csv_file) (Some start_ts) (Some end_ts) (Some Pl) (Some Pu)
           (Some eth_in_pool) (Some hedge_k0) (Some threshold)"
proof -
  have "run_backtest_inputs env1 (Some csv_file) (Some start_ts) (Some end_ts) (Some Pl) (Some Pu)
           (Some eth_in_pool) (Some hedge_k0) (Some threshold)
       = run_backtest_inputs env2 (Some csv_file) (Some start_ts) (Some end_ts) (Some Pl)
           (Some Pu) (Some eth_in_pool) (Some hedge_k0) (Some threshold)"
    using assms
    by (cases "cfg_P0_MODE (cfg env2)")
       (auto simp: run_backtest_inputs_def Let_def split: sum.splits)
  then show ?thesis by (simp add: run_backtest_def)
qed

theorem explicit_run_reads_only_P0_policy_witness:
  "run_backtest example_env (Some ''eth_1h.csv'') (Some 1762473600000000)
      (Some 1767657600000000) (Some 2651) (Some 3498) (Some 1) (Some (7 / 10)) (Some (1 / 20))
   = run_backtest
      (example_env\<lparr>cfg := frozen_config\<lparr>cfg_CSV_FILE := ''other.csv'', cfg_P0 := 1,
         cfg_PL := 1000, cfg_PU := 2000, cfg_HEDGE_K0 := 1 / 2\<rparr>\<rparr>)
      (Some ''eth_1h.csv'') (Some 1762473600000000)
      (Some 1767657600000000) (Some 2651) (Some 3498) (Some 1) (Some (7 / 10)) (Some (1 / 20))"
  by (rule explicit_run_reads_only_P0_policy)
     (simp_all add: example_env_def frozen_config_def)

lemma pow2_pos [simp]: "0 < pow2 e"
  by (simp add: pow2_def)

lemma pow2_nonneg [simp]: "0 \<le> pow2 e"
  by (simp add: pow2_def)

lemma pow2_add: "pow2 (a + b) = pow2 a * pow2 b"
  by (simp add: pow2_def powr_add)

lemma pow2_0 [simp]: "pow2 0 = 1"
  by (simp add: pow2_def)

lemma pow2_nat: "pow2 (int n) = 2 ^ n"
  by (simp add: pow2_def powr_realpow)

lemma pow2_neg_nat: "pow2 (- int n) = 1 / 2 ^ n"
  by (simp add: pow2_def powr_minus powr_realpow divide_inverse)

lemma pow2_cancel: "pow2 a * pow2 (- a) = 1"
  using pow2_add [of a "- a"] by simp

lemma pow2_mono: "a \<le> b \<Longrightarrow> pow2 a \<le> pow2 b"
  by (simp add: pow2_def)

lemma pow2_52: "pow2 52 = 2 ^ 52"
  using pow2_nat [of 52] by simp

lemma pow2_53: "pow2 53 = 2 ^ 53"
  using pow2_nat [of 53] by simp

lemma pow2_up: "pow2 e * pow2 (52 - e) = 2 ^ 52" "pow2 (e + 1) * pow2 (52 - e) = 2 ^ 53"
proof -
  have "pow2 e * pow2 (52 - e) = pow2 (e + (52 - e))" by (rule pow2_add [symmetric])
  then show "pow2 e * pow2 (52 - e) = 2 ^ 52" by (simp add: pow2_52)
  have "pow2 (e + 1) * pow2 (52 - e) = pow2 (e + 1 + (52 - e))" by (rule pow2_add [symmetric])
  then show "pow2 (e + 1) * pow2 (52 - e) = 2 ^ 53" by (simp add: pow2_53)
qed

lemma pow2_down: "2 ^ 52 * pow2 (e - 52) = pow2 e" "2 ^ 53 * pow2 (e - 52) = pow2 (e + 1)"
proof -
  have "pow2 52 * pow2 (e - 52) = pow2 (52 + (e - 52))" by (rule pow2_add [symmetric])
  then show "2 ^ 52 * pow2 (e - 52) = pow2 e" by (simp add: pow2_52)
  have "pow2 53 * pow2 (e - 52) = pow2 (53 + (e - 52))" by (rule pow2_add [symmetric])
  then show "2 ^ 53 * pow2 (e - 52) = pow2 (e + 1)" by (simp add: pow2_53 add.commute)
qed

lemma round_even_of_int [simp]: "round_even (of_int n) = n"
  by (simp add: round_even_def)

lemma round_even_near:
  assumes "\<bar>y - of_int n\<bar> < 1 / 2"
  shows "round_even y = n"
proof -
  have "\<lfloor>y\<rfloor> = n \<or> \<lfloor>y\<rfloor> = n - 1" using assms by linarith
  then show ?thesis
  proof
    assume f: "\<lfloor>y\<rfloor> = n"
    then have "y - of_int n < 1 / 2" using assms by linarith
    then show ?thesis by (simp add: round_even_def f)
  next
    assume f: "\<lfloor>y\<rfloor> = n - 1"
    then have "1 / 2 < y - of_int (n - 1)" using assms by (simp; linarith)
    then show ?thesis by (simp add: round_even_def f)
  qed
qed

lemma round_even_mono:
  assumes "x \<le> y"
  shows "round_even x \<le> round_even y"
proof -
  have fx: "of_int \<lfloor>x\<rfloor> \<le> x" "x < of_int \<lfloor>x\<rfloor> + 1" by linarith+
  have fy: "of_int \<lfloor>y\<rfloor> \<le> y" "y < of_int \<lfloor>y\<rfloor> + 1" by linarith+
  have fl: "\<lfloor>x\<rfloor> \<le> \<lfloor>y\<rfloor>" using assms by (rule floor_mono)
  have rx: "round_even x \<le> \<lfloor>x\<rfloor> + 1" "\<lfloor>x\<rfloor> \<le> round_even x"
    by (simp_all add: round_even_def Let_def)
  have ry: "round_even y \<le> \<lfloor>y\<rfloor> + 1" "\<lfloor>y\<rfloor> \<le> round_even y"
    by (simp_all add: round_even_def Let_def)
  show ?thesis
  proof (cases "\<lfloor>x\<rfloor> = \<lfloor>y\<rfloor>")
    case True
    have "x - of_int \<lfloor>y\<rfloor> \<le> y - of_int \<lfloor>y\<rfloor>" using assms by simp
    then show ?thesis
      unfolding round_even_def Let_def True by (auto split: if_splits)
  next
    case False
    then have "\<lfloor>x\<rfloor> + 1 \<le> \<lfloor>y\<rfloor>" using fl by linarith
    then show ?thesis using rx ry by linarith
  qed
qed

lemma round_even_bounds:
  "\<bar>of_int (round_even y) - y\<bar> \<le> 1 / 2"
proof -
  have "of_int \<lfloor>y\<rfloor> \<le> y" "y < of_int \<lfloor>y\<rfloor> + 1" by linarith+
  then show ?thesis
    by (auto simp: round_even_def Let_def abs_le_iff split: if_splits)
qed

lemma floor_log2_eq:
  assumes "0 < x" "pow2 e \<le> x" "x < pow2 (e + 1)"
  shows "\<lfloor>log 2 x\<rfloor> = e"
  using assms floor_log_eq_powr_iff [of x 2 e] by (simp add: pow2_def)

lemma floor_log2_bounds:
  assumes "0 < x"
  shows "pow2 \<lfloor>log 2 x\<rfloor> \<le> x" "x < pow2 (\<lfloor>log 2 x\<rfloor> + 1)"
  using assms floor_log_eq_powr_iff [of x 2 "\<lfloor>log 2 x\<rfloor>"] by (simp_all add: pow2_def)

lemma binary64_0 [simp]: "binary64 0 = 0"
  by (simp add: binary64_def)

lemma binary64_pos_eq:
  assumes "0 < x" "pow2 e \<le> x" "x < pow2 (e + 1)"
  shows "binary64 x = of_int (round_even (x * pow2 (52 - e))) * pow2 (e - 52)"
  using assms floor_log2_eq [OF assms] by (simp add: binary64_def Let_def)

lemma binary64_minus: "binary64 (- x) = - binary64 x"
  by (simp add: binary64_def Let_def sgn_minus)

lemma scaled_range:
  assumes "pow2 e \<le> x" "x < pow2 (e + 1)"
  shows "2 ^ 52 \<le> x * pow2 (52 - e)" "x * pow2 (52 - e) < 2 ^ 53"
proof -
  have "pow2 e * pow2 (52 - e) \<le> x * pow2 (52 - e)"
    using assms(1) by (intro mult_right_mono) simp_all
  then show "2 ^ 52 \<le> x * pow2 (52 - e)"
    unfolding pow2_up .
  have "x * pow2 (52 - e) < pow2 (e + 1) * pow2 (52 - e)"
    using assms(2) by (intro mult_strict_right_mono) simp_all
  then show "x * pow2 (52 - e) < 2 ^ 53"
    unfolding pow2_up .
qed

lemma round_even_scaled_range:
  assumes "pow2 e \<le> x" "x < pow2 (e + 1)"
  shows "2 ^ 52 \<le> round_even (x * pow2 (52 - e))" "round_even (x * pow2 (52 - e)) \<le> 2 ^ 53"
proof -
  note r = scaled_range [OF assms]
  have "round_even (of_int (2 ^ 52)) \<le> round_even (x * pow2 (52 - e))"
    using r(1) by (intro round_even_mono) simp
  then show "2 ^ 52 \<le> round_even (x * pow2 (52 - e))"
    unfolding round_even_of_int by simp
  have "round_even (x * pow2 (52 - e)) \<le> round_even (of_int (2 ^ 53))"
    using r(2) by (intro round_even_mono) simp
  then show "round_even (x * pow2 (52 - e)) \<le> 2 ^ 53"
    unfolding round_even_of_int by simp
qed

lemma binary64_binade:
  assumes "0 < x" "pow2 e \<le> x" "x < pow2 (e + 1)"
  shows "pow2 e \<le> binary64 x" "binary64 x \<le> pow2 (e + 1)"
proof -
  note r = round_even_scaled_range [OF assms(2,3)]
  note a = pow2_down(1) [of e]
  note b = pow2_down(2) [of e]
  have "(2 ^ 52 :: real) \<le> of_int (round_even (x * pow2 (52 - e)))"
    using r(1) by (metis of_int_le_iff of_int_numeral of_int_power)
  then have "2 ^ 52 * pow2 (e - 52) \<le> of_int (round_even (x * pow2 (52 - e))) * pow2 (e - 52)"
    by (intro mult_right_mono) simp_all
  then show "pow2 e \<le> binary64 x"
    unfolding binary64_pos_eq [OF assms] a .
  have "of_int (round_even (x * pow2 (52 - e))) \<le> (2 ^ 53 :: real)"
    using r(2) by (metis of_int_le_iff of_int_numeral of_int_power)
  then have "of_int (round_even (x * pow2 (52 - e))) * pow2 (e - 52) \<le> 2 ^ 53 * pow2 (e - 52)"
    by (intro mult_right_mono) simp_all
  then show "binary64 x \<le> pow2 (e + 1)"
    unfolding binary64_pos_eq [OF assms] b .
qed

lemma binary64_pos:
  assumes "0 < x"
  shows "0 < binary64 x"
  using binary64_binade(1) [OF assms floor_log2_bounds [OF assms]]
    pow2_pos [of "\<lfloor>log 2 x\<rfloor>"] by linarith

lemma binary64_mono_pos:
  assumes "0 < x" "x \<le> y"
  shows "binary64 x \<le> binary64 y"
proof -
  have y: "0 < y" using assms by linarith
  define e where "e = \<lfloor>log 2 x\<rfloor>"
  define f where "f = \<lfloor>log 2 y\<rfloor>"
  note bx = floor_log2_bounds [OF assms(1), folded e_def]
  note by' = floor_log2_bounds [OF y, folded f_def]
  have ef: "e \<le> f"
    unfolding e_def f_def using assms by (intro floor_mono) (simp add: log_le_cancel_iff)
  show ?thesis
  proof (cases "e = f")
    case True
    have "x * pow2 (52 - e) \<le> y * pow2 (52 - e)"
      using assms(2) by (intro mult_right_mono) simp_all
    then have "round_even (x * pow2 (52 - e)) \<le> round_even (y * pow2 (52 - e))"
      by (rule round_even_mono)
    then have "of_int (round_even (x * pow2 (52 - e))) * pow2 (e - 52)
        \<le> of_int (round_even (y * pow2 (52 - e))) * pow2 (e - 52)"
      by (intro mult_right_mono) simp_all
    then show ?thesis
      unfolding binary64_pos_eq [OF assms(1) bx] binary64_pos_eq [OF y by' [folded True]] .
  next
    case False
    then have "e + 1 \<le> f" using ef by linarith
    then have "pow2 (e + 1) \<le> pow2 f" by (rule pow2_mono)
    then show ?thesis
      using binary64_binade(2) [OF assms(1) bx] binary64_binade(1) [OF y by'] by linarith
  qed
qed

lemma binary64_mono:
  assumes "x \<le> y"
  shows "binary64 x \<le> binary64 y"
proof -
  consider "0 < x" | "x \<le> 0" "0 \<le> y" | "y < 0" using assms by linarith
  then show ?thesis
  proof cases
    case 1
    then show ?thesis using assms by (rule binary64_mono_pos)
  next
    case 2
    have "binary64 x \<le> 0"
    proof (cases "x = 0")
      case True then show ?thesis by simp
    next
      case False
      then have "0 < binary64 (- x)" using 2 by (intro binary64_pos) simp
      then show ?thesis by (simp add: binary64_minus)
    qed
    moreover have "0 \<le> binary64 y"
    proof (cases "y = 0")
      case True then show ?thesis by simp
    next
      case False
      then have "0 < binary64 y" using 2 by (intro binary64_pos) simp
      then show ?thesis by simp
    qed
    ultimately show ?thesis by linarith
  next
    case 3
    then have "binary64 (- y) \<le> binary64 (- x)"
      using assms by (intro binary64_mono_pos) simp_all
    then show ?thesis by (simp add: binary64_minus)
  qed
qed

lemma binary64_near:
  assumes "0 < x" "pow2 e \<le> x" "x < pow2 (e + 1)" "\<bar>x * pow2 (52 - e) - of_int n\<bar> < 1 / 2"
  shows "binary64 x = of_int n * pow2 (e - 52)"
  unfolding binary64_pos_eq [OF assms(1-3)] round_even_near [OF assms(4)] ..

lemma pow2_numeral [simp]: "pow2 (numeral k) = 2 ^ numeral k"
  using pow2_nat [of "numeral k"] by simp

lemma pow2_neg_numeral [simp]: "pow2 (- numeral k) = 1 / 2 ^ numeral k"
  using pow2_neg_nat [of "numeral k"] by simp

lemma binary64_evalI:
  assumes "pow2 e \<le> x" "x < pow2 (e + 1)" "\<bar>x * pow2 (52 - e) - of_int n\<bar> < 1 / 2"
  shows "binary64 x = of_int n * pow2 (e - 52)"
proof -
  have "0 < x" using assms(1) pow2_pos [of e] by linarith
  then show ?thesis using assms by (rule binary64_near)
qed

lemma sqrt_between:
  assumes "0 \<le> lo" "lo\<^sup>2 < a" "0 \<le> hi" "a < hi\<^sup>2"
  shows "lo < sqrt a" "sqrt a < hi"
  using assms by (simp_all add: real_less_rsqrt real_less_lsqrt)

text \<open>Square roots of arguments in [2^10, 2^12): the result has exponent 5.\<close>

lemma binary64_sqrt_evalI:
  assumes "1024 \<le> a" "a < 4096" "0 < m"
    and "(2 * of_int m - 1)\<^sup>2 < a * 2 ^ 96" "a * 2 ^ 96 < (2 * of_int m + 1)\<^sup>2"
  shows "binary64 (sqrt a) = of_int m / 2 ^ 47"
proof -
  have lo: "((2 * of_int m - 1) / 2 ^ 48)\<^sup>2 < a"
    using assms(4) by (simp add: power_divide field_simps)
  have hi: "a < ((2 * of_int m + 1) / 2 ^ 48)\<^sup>2"
    using assms(5) by (simp add: power_divide field_simps)
  have m: "(1::real) \<le> of_int m" using assms(3) by linarith
  have b: "(2 * of_int m - 1) / 2 ^ 48 < sqrt a" "sqrt a < (2 * of_int m + 1) / 2 ^ 48"
    using sqrt_between [OF _ lo _ hi] m by simp_all
  have "(32::real)\<^sup>2 \<le> a" "a < (64::real)\<^sup>2" using assms(1,2) by simp_all
  then have r: "32 \<le> sqrt a" "sqrt a < 64"
    by (simp_all add: real_le_rsqrt real_less_lsqrt)
  have "of_int m - 1 / 2 < sqrt a * 2 ^ 47" "sqrt a * 2 ^ 47 < of_int m + 1 / 2"
    using b by (simp_all add: field_simps)
  then have "\<bar>sqrt a * 2 ^ 47 - of_int m\<bar> < 1 / 2"
    by linarith
  then have "binary64 (sqrt a) = of_int m * pow2 (5 - 52)"
    using r by (intro binary64_evalI) simp_all
  then show ?thesis by simp
qed

lemma sqrt_3498: "binary64 (sqrt 3498) = 8323762858150403 / 2 ^ 47"
  using binary64_sqrt_evalI [of 3498 8323762858150403] by simp

lemma sqrt_3498_pred: "binary64 (sqrt (3498 - 1 / 2 ^ 41)) = 8323762858150402 / 2 ^ 47"
  using binary64_sqrt_evalI [of "3498 - 1 / 2 ^ 41" 8323762858150402] by simp

lemma sqrt_2651: "binary64 (sqrt 2651) = 7246272469782563 / 2 ^ 47"
  using binary64_sqrt_evalI [of 2651 7246272469782563] by simp

lemma recip_3498: "binary64 (1 / (8323762858150403 / 2 ^ 47)) = 4873375166807326 / 2 ^ 58"
  using binary64_evalI [of "- 6" "1 / (8323762858150403 / 2 ^ 47)" 4873375166807326]
  by (simp add: abs_less_iff)

lemma recip_3498_pred: "binary64 (1 / (8323762858150402 / 2 ^ 47)) = 4873375166807326 / 2 ^ 58"
  using binary64_evalI [of "- 6" "1 / (8323762858150402 / 2 ^ 47)" 4873375166807326]
  by (simp add: abs_less_iff)

lemma fl_exact_amounts: "amounts_from_L_fl (\<lambda>x. x) P Pl Pu L = amounts_from_L P Pl Pu L"
  by (auto simp: amounts_from_L_fl_def amounts_from_L_def Let_def)

lemma fl_exact_L:
  "L_from_initial_usd_fl (\<lambda>x. x) P0 Pl Pu initial_usd = L_from_initial_usd P0 Pl Pu initial_usd"
  by (auto simp: L_from_initial_usd_fl_def L_from_initial_usd_def value_per_L_fl_def
      value_per_L_def)

lemma fl_exact_calc_usdt:
  "calc_usdt_for_eth_in_pool_fl (\<lambda>x. x) price lower upper eth_in_pool
     = calc_usdt_for_eth_in_pool price lower upper eth_in_pool"
  by (auto simp: calc_usdt_for_eth_in_pool_fl_def calc_usdt_for_eth_in_pool_def
      delta_sqrt_inv_fl_def delta_sqrt_inv_def Let_def)

lemma fl_exact_calculate_k:
  "calculate_k_fl (\<lambda>x. x) P Pl Pu k0 = Inr (calculate_k P Pl Pu k0)"
  by (auto simp: calculate_k_fl_def calculate_k_def Let_def)

lemma diff_3498_2651:
  "binary64 (8323762858150402 / 2 ^ 47 - 7246272469782563 / 2 ^ 47)
     = 8619923106942712 / 2 ^ 50"
  using binary64_evalI
    [of 2 "8323762858150402 / 2 ^ 47 - 7246272469782563 / 2 ^ 47" 8619923106942712]
  by (simp add: abs_less_iff)

lemma prod_1000:
  "binary64 (1000 * (8619923106942712 / 2 ^ 50)) = 8417893659123742 / 2 ^ 40"
  using binary64_evalI [of 12 "1000 * (8619923106942712 / 2 ^ 50)" 8417893659123742]
  by (simp add: abs_less_iff)

text \<open>
  Strictly inside the range the primary amount can be zero: at the double just below the
  upper bound 3498 the two square roots differ by one unit in the last place, their
  reciprocals round to the same double, and \<open>x\<close> is \<open>1000 * 0\<close>.
\<close>

theorem amounts_x_zero_inside_counterexample:
  "amounts_from_L_fl binary64 (3498 - 1 / 2 ^ 41) 2651 3498 1000
     = Inr (0, 8417893659123742 / 2 ^ 40)"
  unfolding amounts_from_L_fl_def Let_def sqrt_3498 sqrt_3498_pred sqrt_2651
    recip_3498 recip_3498_pred diff_3498_2651 prod_1000
  by simp


lemma rounding_binary64: "rounding binary64"
  unfolding rounding_def
proof (intro conjI allI impI)
  show "binary64 x \<le> binary64 y" if "x \<le> y" for x y using that by (rule binary64_mono)
  show "binary64 0 = 0" by simp
  show "0 < binary64 (sqrt x)" if "0 < x" for x using that by (intro binary64_pos) simp
qed

lemma rounding_mono: "rounding rnd \<Longrightarrow> x \<le> y \<Longrightarrow> rnd x \<le> rnd y"
  unfolding rounding_def by blast

lemma rounding_nonneg:
  assumes "rounding rnd" "0 \<le> x"
  shows "0 \<le> rnd x"
proof -
  have "rnd 0 \<le> rnd x" using assms by (rule rounding_mono)
  moreover have "rnd 0 = 0" using assms(1) unfolding rounding_def by blast
  ultimately show ?thesis by simp
qed

lemma rounding_sqrt_pos: "rounding rnd \<Longrightarrow> 0 < x \<Longrightarrow> 0 < rnd (sqrt x)"
  unfolding rounding_def by blast

lemma rounding_sqrt_mono:
  assumes "rounding rnd" "x \<le> y"
  shows "rnd (sqrt x) \<le> rnd (sqrt y)"
  using assms(2) by (intro rounding_mono [OF assms(1)]) simp

lemma rounding_recip_diff:
  assumes "rounding rnd" "0 < a" "a \<le> b"
  shows "0 \<le> rnd (rnd (1 / rnd (sqrt a)) - rnd (1 / rnd (sqrt b)))"
proof -
  have p: "0 < rnd (sqrt a)" "rnd (sqrt a) \<le> rnd (sqrt b)"
    using assms rounding_sqrt_pos [OF assms(1,2)] rounding_sqrt_mono [OF assms(1,3)] by blast+
  then have "1 / rnd (sqrt b) \<le> 1 / rnd (sqrt a)"
    by (simp add: frac_le)
  then have "rnd (1 / rnd (sqrt b)) \<le> rnd (1 / rnd (sqrt a))"
    by (rule rounding_mono [OF assms(1)])
  then show ?thesis by (intro rounding_nonneg [OF assms(1)]) simp
qed

lemma rounding_sqrt_diff:
  assumes "rounding rnd" "a \<le> b"
  shows "0 \<le> rnd (rnd (sqrt b) - rnd (sqrt a))"
  using rounding_sqrt_mono [OF assms] by (intro rounding_nonneg [OF assms(1)]) simp

lemma rounding_scale:
  assumes "rounding rnd" "0 \<le> L" "0 \<le> d"
  shows "0 \<le> rnd (L * d)"
  using assms(2,3) by (intro rounding_nonneg [OF assms(1)]) simp

section \<open>Token composition in double arithmetic\<close>

text \<open>
  Claim C1, amended. For positive prices, a positive liquidity and \<open>Pl < Pu\<close>,
  \<open>amounts_from_L\<close> returns the below-range pair with \<open>x \<ge> 0\<close> and \<open>y = 0\<close> when
  \<open>P \<le> Pl\<close>, the in-range pair with \<open>x \<ge> 0\<close> and \<open>y \<ge> 0\<close> when \<open>Pl < P < Pu\<close>, and
  the above-range pair with \<open>x = 0\<close> and \<open>y \<ge> 0\<close> when \<open>P \<ge> Pu\<close>, each amount being the
  claim's formula evaluated in double arithmetic; on any non-positive price,
  non-positive liquidity or \<open>Pl \<ge> Pu\<close> it fails with one of the three input
  \<open>ValueError\<close>s. The amounts are not strictly positive: rounding can make them zero.
\<close>

theorem amounts_from_L_fl_regimes:
  assumes "rounding rnd"
  shows "(0 < P \<and> 0 < Pl \<and> Pl < Pu \<and> 0 < L \<longrightarrow>
      (P \<le> Pl \<longrightarrow>
         amounts_from_L_fl rnd P Pl Pu L
           = Inr (rnd (L * rnd (rnd (1 / rnd (sqrt Pl)) - rnd (1 / rnd (sqrt Pu)))), 0)
         \<and> 0 \<le> rnd (L * rnd (rnd (1 / rnd (sqrt Pl)) - rnd (1 / rnd (sqrt Pu)))))
    \<and> (Pl < P \<and> P < Pu \<longrightarrow>
         amounts_from_L_fl rnd P Pl Pu L
           = Inr (rnd (L * rnd (rnd (1 / rnd (sqrt P)) - rnd (1 / rnd (sqrt Pu)))),
                  rnd (L * rnd (rnd (sqrt P) - rnd (sqrt Pl))))
         \<and> 0 \<le> rnd (L * rnd (rnd (1 / rnd (sqrt P)) - rnd (1 / rnd (sqrt Pu))))
         \<and> 0 \<le> rnd (L * rnd (rnd (sqrt P) - rnd (sqrt Pl))))
    \<and> (Pu \<le> P \<longrightarrow>
         amounts_from_L_fl rnd P Pl Pu L = Inr (0, rnd (L * rnd (rnd (sqrt Pu) - rnd (sqrt Pl))))
         \<and> 0 \<le> rnd (L * rnd (rnd (sqrt Pu) - rnd (sqrt Pl)))))
   \<and> (P \<le> 0 \<or> Pl \<le> 0 \<or> Pu \<le> 0 \<or> L \<le> 0 \<or> Pu \<le> Pl \<longrightarrow>
        amounts_from_L_fl rnd P Pl Pu L \<in>
          {Inl (ValueError PricesNotPositive), Inl (ValueError LiquidityNotPositive),
           Inl (ValueError PlNotBelowPu)})"
proof (intro conjI impI)
  assume v: "0 < P \<and> 0 < Pl \<and> Pl < Pu \<and> 0 < L"
  then have pu: "0 < Pu" by linarith
  note sp = rounding_sqrt_pos [OF assms]
  {
    assume "P \<le> Pl"
    then show "amounts_from_L_fl rnd P Pl Pu L
           = Inr (rnd (L * rnd (rnd (1 / rnd (sqrt Pl)) - rnd (1 / rnd (sqrt Pu)))), 0)"
      using v pu sp [of Pl] sp [of Pu] by (simp add: amounts_from_L_fl_def Let_def)
    show "0 \<le> rnd (L * rnd (rnd (1 / rnd (sqrt Pl)) - rnd (1 / rnd (sqrt Pu))))"
      using v rounding_recip_diff [OF assms, of Pl Pu] by (intro rounding_scale [OF assms]) simp_all
  }
  {
    assume r: "Pl < P \<and> P < Pu"
    then show "amounts_from_L_fl rnd P Pl Pu L
           = Inr (rnd (L * rnd (rnd (1 / rnd (sqrt P)) - rnd (1 / rnd (sqrt Pu)))),
                  rnd (L * rnd (rnd (sqrt P) - rnd (sqrt Pl))))"
      using v pu sp [of P] sp [of Pu] by (simp add: amounts_from_L_fl_def Let_def)
    show "0 \<le> rnd (L * rnd (rnd (1 / rnd (sqrt P)) - rnd (1 / rnd (sqrt Pu))))"
      using v r rounding_recip_diff [OF assms, of P Pu] by (intro rounding_scale [OF assms]) simp_all
    show "0 \<le> rnd (L * rnd (rnd (sqrt P) - rnd (sqrt Pl)))"
      using v r rounding_sqrt_diff [OF assms, of Pl P] by (intro rounding_scale [OF assms]) simp_all
  }
  {
    assume "Pu \<le> P"
    then show "amounts_from_L_fl rnd P Pl Pu L
        = Inr (0, rnd (L * rnd (rnd (sqrt Pu) - rnd (sqrt Pl))))"
      using v pu by (simp add: amounts_from_L_fl_def Let_def)
    show "0 \<le> rnd (L * rnd (rnd (sqrt Pu) - rnd (sqrt Pl)))"
      using v rounding_sqrt_diff [OF assms, of Pl Pu] by (intro rounding_scale [OF assms]) simp_all
  }
next
  assume "P \<le> 0 \<or> Pl \<le> 0 \<or> Pu \<le> 0 \<or> L \<le> 0 \<or> Pu \<le> Pl"
  then show "amounts_from_L_fl rnd P Pl Pu L \<in>
          {Inl (ValueError PricesNotPositive), Inl (ValueError LiquidityNotPositive),
           Inl (ValueError PlNotBelowPu)}"
    by (auto simp: amounts_from_L_fl_def)
qed

theorem amounts_from_L_fl_regimes_witness:
  "(\<exists>x. amounts_from_L_fl binary64 2000 2651 3498 1000 = Inr (x, 0) \<and> 0 \<le> x)
   \<and> (\<exists>x y. amounts_from_L_fl binary64 3000 2651 3498 1000 = Inr (x, y) \<and> 0 \<le> x \<and> 0 \<le> y)
   \<and> (\<exists>y. amounts_from_L_fl binary64 4000 2651 3498 1000 = Inr (0, y) \<and> 0 \<le> y)
   \<and> amounts_from_L_fl binary64 0 2651 3498 1000 = Inl (ValueError PricesNotPositive)"
proof (intro conjI)
  note t = amounts_from_L_fl_regimes [OF rounding_binary64, THEN conjunct1, THEN mp]
  have v: "(0::real) < 2000 \<and> (0::real) < 2651 \<and> (2651::real) < 3498 \<and> (0::real) < 1000"
    "(0::real) < 3000 \<and> (0::real) < 2651 \<and> (2651::real) < 3498 \<and> (0::real) < 1000"
    "(0::real) < 4000 \<and> (0::real) < 2651 \<and> (2651::real) < 3498 \<and> (0::real) < 1000"
    by simp_all
  have c: "(2000::real) \<le> 2651" "(2651::real) < 3000 \<and> (3000::real) < 3498" "(3498::real) \<le> 4000"
    by simp_all
  from t [OF v(1), THEN conjunct1, THEN mp, OF c(1)]
  show "\<exists>x. amounts_from_L_fl binary64 2000 2651 3498 1000 = Inr (x, 0) \<and> 0 \<le> x"
    by blast
  from t [OF v(2), THEN conjunct2, THEN conjunct1, THEN mp, OF c(2)]
  show "\<exists>x y. amounts_from_L_fl binary64 3000 2651 3498 1000 = Inr (x, y) \<and> 0 \<le> x \<and> 0 \<le> y"
    by blast
  from t [OF v(3), THEN conjunct2, THEN conjunct2, THEN mp, OF c(3)]
  show "\<exists>y. amounts_from_L_fl binary64 4000 2651 3498 1000 = Inr (0, y) \<and> 0 \<le> y"
    by blast
  have "(0::real) \<le> 0 \<or> (2651::real) \<le> 0 \<or> (3498::real) \<le> 0 \<or> (1000::real) \<le> 0
      \<or> (3498::real) \<le> 2651"
    by simp
  from amounts_from_L_fl_regimes [OF rounding_binary64, THEN conjunct2, THEN mp, OF this]
  show "amounts_from_L_fl binary64 0 2651 3498 1000 = Inl (ValueError PricesNotPositive)"
    by (auto simp: amounts_from_L_fl_def)
qed


lemma pow2_1 [simp]: "pow2 1 = 2"
  using pow2_nat [of 1] by simp

lemma pow2_neg_1 [simp]: "pow2 (- 1) = 1 / 2"
  using pow2_neg_nat [of 1] by simp

text \<open>Square roots of arguments in [1, 4): the result has exponent 0.\<close>

lemma binary64_sqrt_evalI0:
  assumes "1 \<le> a" "a < 4" "0 < m"
    and "(2 * of_int m - 1)\<^sup>2 < a * 2 ^ 106" "a * 2 ^ 106 < (2 * of_int m + 1)\<^sup>2"
  shows "binary64 (sqrt a) = of_int m / 2 ^ 52"
proof -
  have lo: "((2 * of_int m - 1) / 2 ^ 53)\<^sup>2 < a"
    using assms(4) by (simp add: power_divide field_simps)
  have hi: "a < ((2 * of_int m + 1) / 2 ^ 53)\<^sup>2"
    using assms(5) by (simp add: power_divide field_simps)
  have m: "(1::real) \<le> of_int m" using assms(3) by linarith
  have b: "(2 * of_int m - 1) / 2 ^ 53 < sqrt a" "sqrt a < (2 * of_int m + 1) / 2 ^ 53"
    using sqrt_between [OF _ lo _ hi] m by simp_all
  have "(1::real)\<^sup>2 \<le> a" "a < (2::real)\<^sup>2" using assms(1,2) by simp_all
  then have r: "1 \<le> sqrt a" "sqrt a < 2"
    by (simp_all add: real_le_rsqrt real_less_lsqrt)
  have "of_int m - 1 / 2 < sqrt a * 2 ^ 52" "sqrt a * 2 ^ 52 < of_int m + 1 / 2"
    using b by (simp_all add: field_simps)
  then have "\<bar>sqrt a * 2 ^ 52 - of_int m\<bar> < 1 / 2"
    by linarith
  then have "binary64 (sqrt a) = of_int m * pow2 (0 - 52)"
    using r by (intro binary64_evalI) simp_all
  then show ?thesis by simp
qed

lemma sqrt_one_succ: "binary64 (sqrt (1 + 1 / 2 ^ 52)) = 1"
  using binary64_sqrt_evalI0 [of "1 + 1 / 2 ^ 52" "2 ^ 52"] by simp

lemma sqrt_one_succ2: "binary64 (sqrt (1 + 1 / 2 ^ 51)) = 1 + 1 / 2 ^ 52"
  using binary64_sqrt_evalI0 [of "1 + 1 / 2 ^ 51" "2 ^ 52 + 1"] by (simp add: field_simps)

lemma binary64_1 [simp]: "binary64 1 = 1"
  using binary64_evalI [of 0 1 "2 ^ 52"] by simp

lemma binary64_2 [simp]: "binary64 2 = 2"
  using binary64_evalI [of 1 2 "2 ^ 52"] by simp

text \<open>
  Both degenerate-denominator errors are raised inside the strict range: for the
  complementary amount at the double just below the upper bound 3498, where the two
  rounded reciprocals coincide; for the liquidity at three consecutive doubles
  \<open>1 < 1 + 2\<^sup>-\<^sup>5\<^sup>2 < 1 + 2\<^sup>-\<^sup>5\<^sup>1\<close>, where \<open>value_per_L\<close> is \<open>2 - 1 - 1\<close>.
\<close>

theorem degenerate_branches_reached_counterexample:
  "calc_usdt_for_eth_in_pool_fl binary64 (3498 - 1 / 2 ^ 41) 2651 3498 1
     = Inl (ValueError DeltaSqrtInvNotPositive)
   \<and> L_from_initial_usd_fl binary64 (1 + 1 / 2 ^ 52) 1 (1 + 1 / 2 ^ 51) 5
     = Inl (ValueError InvalidValuePerL)"
proof
  show "calc_usdt_for_eth_in_pool_fl binary64 (3498 - 1 / 2 ^ 41) 2651 3498 1
     = Inl (ValueError DeltaSqrtInvNotPositive)"
    unfolding calc_usdt_for_eth_in_pool_fl_def delta_sqrt_inv_fl_def Let_def
      sqrt_3498 sqrt_3498_pred sqrt_2651 recip_3498 recip_3498_pred
    by simp
  have d: "(1 + 1 / 2 ^ 52) / (1 + 1 / 2 ^ 52) = (1::real)" by simp
  show "L_from_initial_usd_fl binary64 (1 + 1 / 2 ^ 52) 1 (1 + 1 / 2 ^ 51) 5
     = Inl (ValueError InvalidValuePerL)"
    unfolding L_from_initial_usd_fl_def value_per_L_fl_def
      sqrt_one_succ sqrt_one_succ2 real_sqrt_one d
    by simp
qed

lemma calc_usdt_fl_closed:
  assumes "rounding rnd" "0 \<le> lower" "lower < price" "price < upper" "0 < eth_in_pool"
  shows "0 \<le> delta_sqrt_inv_fl rnd price upper"
    and "0 \<le> rnd (rnd (sqrt price) - rnd (sqrt lower))"
    and "calc_usdt_for_eth_in_pool_fl rnd price lower upper eth_in_pool
           = (if delta_sqrt_inv_fl rnd price upper = 0
              then Inl (ValueError DeltaSqrtInvNotPositive)
              else Inr (rnd (rnd (eth_in_pool / delta_sqrt_inv_fl rnd price upper)
                             * rnd (rnd (sqrt price) - rnd (sqrt lower)))))"
    and "0 \<le> rnd (rnd (eth_in_pool / delta_sqrt_inv_fl rnd price upper)
                  * rnd (rnd (sqrt price) - rnd (sqrt lower)))"
proof -
  have p: "0 < price" "0 < upper" using assms by linarith+
  show d: "0 \<le> delta_sqrt_inv_fl rnd price upper"
    unfolding delta_sqrt_inv_fl_def using assms p by (intro rounding_recip_diff) simp_all
  show s: "0 \<le> rnd (rnd (sqrt price) - rnd (sqrt lower))"
    using assms by (intro rounding_sqrt_diff) simp_all
  have z: "rnd (sqrt price) \<noteq> 0" "rnd (sqrt upper) \<noteq> 0"
    using rounding_sqrt_pos [OF assms(1) p(1)] rounding_sqrt_pos [OF assms(1) p(2)] by simp_all
  show "calc_usdt_for_eth_in_pool_fl rnd price lower upper eth_in_pool
           = (if delta_sqrt_inv_fl rnd price upper = 0
              then Inl (ValueError DeltaSqrtInvNotPositive)
              else Inr (rnd (rnd (eth_in_pool / delta_sqrt_inv_fl rnd price upper)
                             * rnd (rnd (sqrt price) - rnd (sqrt lower)))))"
    using assms(2-5) p d s z
    by (simp add: calc_usdt_for_eth_in_pool_fl_def Let_def not_less)
  have "0 \<le> eth_in_pool / delta_sqrt_inv_fl rnd price upper"
    using assms(5) d by simp
  then have "0 \<le> rnd (eth_in_pool / delta_sqrt_inv_fl rnd price upper)"
    by (rule rounding_nonneg [OF assms(1)])
  then show "0 \<le> rnd (rnd (eth_in_pool / delta_sqrt_inv_fl rnd price upper)
                  * rnd (rnd (sqrt price) - rnd (sqrt lower)))"
    using s by (intro rounding_scale [OF assms(1)])
qed

lemma L_from_initial_usd_fl_closed:
  assumes "rounding rnd" "0 \<le> Pl" "Pl < P0" "P0 < Pu" "0 < initial_usd"
  shows "L_from_initial_usd_fl rnd P0 Pl Pu initial_usd
           = (if value_per_L_fl rnd P0 Pl Pu \<le> 0 then Inl (ValueError InvalidValuePerL)
              else Inr (rnd (initial_usd / value_per_L_fl rnd P0 Pl Pu)))"
    and "0 < value_per_L_fl rnd P0 Pl Pu
           \<Longrightarrow> 0 \<le> rnd (initial_usd / value_per_L_fl rnd P0 Pl Pu)"
proof -
  have p: "0 < Pu" using assms by linarith
  have z: "rnd (sqrt Pu) \<noteq> 0"
    using rounding_sqrt_pos [OF assms(1) p] by simp
  show "L_from_initial_usd_fl rnd P0 Pl Pu initial_usd
           = (if value_per_L_fl rnd P0 Pl Pu \<le> 0 then Inl (ValueError InvalidValuePerL)
              else Inr (rnd (initial_usd / value_per_L_fl rnd P0 Pl Pu)))"
    using assms(2-5) p z by (simp add: L_from_initial_usd_fl_def)
  show "0 \<le> rnd (initial_usd / value_per_L_fl rnd P0 Pl Pu)"
    if "0 < value_per_L_fl rnd P0 Pl Pu"
    using that assms(5) by (intro rounding_nonneg [OF assms(1)]) simp
qed

section \<open>The degenerate-denominator guards in double arithmetic\<close>

text \<open>
  Claim C10, amended. With a non-negative lower bound (which \<open>math.sqrt\<close> needs) and the
  strict range, the two denominators are positive in exact arithmetic, but in double
  arithmetic they can be zero, so the degenerate-denominator branches are reachable.
  The computed \<open>delta_sqrt_inv\<close> is never negative, and \<open>calc_usdt_for_eth_in_pool\<close> raises
  its degenerate error exactly when it is zero; otherwise, for a positive amount (at
  most \<open>2\<^sup>4\<^sup>0\<^sup>0\<close>, so that the liquidity stays finite), it returns a result that is not
  negative. \<open>L_from_initial_usd\<close> raises its degenerate error exactly when the computed
  \<open>value_per_L\<close> is not positive, and otherwise returns a liquidity that is not negative.
\<close>

theorem degenerate_guards_fl:
  assumes "rounding rnd"
  shows "(0 \<le> lower \<and> lower < price \<and> price < upper \<and> 0 < eth_in_pool
          \<and> eth_in_pool \<le> 2 ^ 400 \<longrightarrow>
            0 < delta_sqrt_inv_fl (\<lambda>x. x) price upper
          \<and> 0 \<le> delta_sqrt_inv_fl rnd price upper
          \<and> calc_usdt_for_eth_in_pool_fl rnd price lower upper eth_in_pool
              = (if delta_sqrt_inv_fl rnd price upper = 0
                 then Inl (ValueError DeltaSqrtInvNotPositive)
                 else Inr (rnd (rnd (eth_in_pool / delta_sqrt_inv_fl rnd price upper)
                                * rnd (rnd (sqrt price) - rnd (sqrt lower)))))
          \<and> 0 \<le> rnd (rnd (eth_in_pool / delta_sqrt_inv_fl rnd price upper)
                      * rnd (rnd (sqrt price) - rnd (sqrt lower))))
     \<and> (0 \<le> Pl \<and> Pl < P0 \<and> P0 < Pu \<and> 0 < initial_usd \<longrightarrow>
            0 < value_per_L_fl (\<lambda>x. x) P0 Pl Pu
          \<and> L_from_initial_usd_fl rnd P0 Pl Pu initial_usd
              = (if value_per_L_fl rnd P0 Pl Pu \<le> 0 then Inl (ValueError InvalidValuePerL)
                 else Inr (rnd (initial_usd / value_per_L_fl rnd P0 Pl Pu)))
          \<and> (0 < value_per_L_fl rnd P0 Pl Pu
                \<longrightarrow> 0 \<le> rnd (initial_usd / value_per_L_fl rnd P0 Pl Pu)))"
proof (rule conjI; intro impI)
  assume a: "0 \<le> lower \<and> lower < price \<and> price < upper \<and> 0 < eth_in_pool
          \<and> eth_in_pool \<le> 2 ^ 400"
  then have h: "0 \<le> lower" "lower < price" "price < upper" "0 < eth_in_pool" by blast+
  have e: "0 < delta_sqrt_inv_fl (\<lambda>x. x) price upper"
    using delta_sqrt_inv_pos [OF h(1-3)] by (simp add: delta_sqrt_inv_fl_def delta_sqrt_inv_def)
  show "0 < delta_sqrt_inv_fl (\<lambda>x. x) price upper
          \<and> 0 \<le> delta_sqrt_inv_fl rnd price upper
          \<and> calc_usdt_for_eth_in_pool_fl rnd price lower upper eth_in_pool
              = (if delta_sqrt_inv_fl rnd price upper = 0
                 then Inl (ValueError DeltaSqrtInvNotPositive)
                 else Inr (rnd (rnd (eth_in_pool / delta_sqrt_inv_fl rnd price upper)
                                * rnd (rnd (sqrt price) - rnd (sqrt lower)))))
          \<and> 0 \<le> rnd (rnd (eth_in_pool / delta_sqrt_inv_fl rnd price upper)
                      * rnd (rnd (sqrt price) - rnd (sqrt lower)))"
    using e calc_usdt_fl_closed(1,3,4) [OF assms h] by (intro conjI)
next
  assume a: "0 \<le> Pl \<and> Pl < P0 \<and> P0 < Pu \<and> 0 < initial_usd"
  then have h: "0 \<le> Pl" "Pl < P0" "P0 < Pu" "0 < initial_usd" by blast+
  have e: "0 < value_per_L_fl (\<lambda>x. x) P0 Pl Pu"
    using value_per_L_pos [OF h(1-3)] by (simp add: value_per_L_fl_def value_per_L_def)
  show "0 < value_per_L_fl (\<lambda>x. x) P0 Pl Pu
          \<and> L_from_initial_usd_fl rnd P0 Pl Pu initial_usd
              = (if value_per_L_fl rnd P0 Pl Pu \<le> 0 then Inl (ValueError InvalidValuePerL)
                 else Inr (rnd (initial_usd / value_per_L_fl rnd P0 Pl Pu)))
          \<and> (0 < value_per_L_fl rnd P0 Pl Pu
                \<longrightarrow> 0 \<le> rnd (initial_usd / value_per_L_fl rnd P0 Pl Pu))"
    using e L_from_initial_usd_fl_closed [OF assms h] by (intro conjI impI)
qed


lemma sqrt_d_3150: "binary64 (sqrt 3150) = 7898871943510869 / 2 ^ 47"
  using binary64_sqrt_evalI [of 3150 7898871943510869] by simp

lemma sqrt_d_2651: "binary64 (sqrt 2651) = 7246272469782563 / 2 ^ 47"
  using binary64_sqrt_evalI [of 2651 7246272469782563] by simp

lemma sqrt_d_3498: "binary64 (sqrt 3498) = 8323762858150403 / 2 ^ 47"
  using binary64_sqrt_evalI [of 3498 8323762858150403] by simp

lemma recip_d_7898871943510869_2p47: "binary64 (1 / (7898871943510869 / 2 ^ 47)) = 5135520552479447 / 2 ^ 58"
  using binary64_evalI [of "- 6" "1 / (7898871943510869 / 2 ^ 47)" 5135520552479447]
  by (simp add: abs_less_iff)

lemma recip_d_8323762858150403_2p47: "binary64 (1 / (8323762858150403 / 2 ^ 47)) = 2436687583403663 / 2 ^ 57"
  using binary64_evalI [of "- 6" "1 / (8323762858150403 / 2 ^ 47)" 4873375166807326]
  by (simp add: abs_less_iff)

lemma dsi_a: "binary64 (5135520552479447 / 2 ^ 58 - 2436687583403663 / 2 ^ 57) = 262145385672121 / 2 ^ 58"
  using binary64_evalI [of "- 11" "5135520552479447 / 2 ^ 58 - 2436687583403663 / 2 ^ 57" 8388652341507872]
  by (simp add: abs_less_iff)

lemma liq_a: "binary64 (1 / (262145385672121 / 2 ^ 58)) = 1208919429363661 / 2 ^ 40"
  using binary64_evalI [of 10 "1 / (262145385672121 / 2 ^ 58)" 4835677717454644]
  by (simp add: abs_less_iff)

lemma ds_a: "binary64 (7898871943510869 / 2 ^ 47 - 7246272469782563 / 2 ^ 47) = 326299736864153 / 2 ^ 46"
  using binary64_evalI [of 2 "7898871943510869 / 2 ^ 47 - 7246272469782563 / 2 ^ 47" 5220795789826448]
  by (simp add: abs_less_iff)

lemma res_a: "binary64 ((1208919429363661 / 2 ^ 40) * (326299736864153 / 2 ^ 46)) = 5605757162517827 / 2 ^ 40"
  using binary64_evalI [of 12 "(1208919429363661 / 2 ^ 40) * (326299736864153 / 2 ^ 46)" 5605757162517827]
  by (simp add: abs_less_iff)

lemma sqrt_d_3150plus1_2p41: "binary64 (sqrt (3150 + 1 / 2 ^ 41)) = 7898871943510869 / 2 ^ 47"
  using binary64_sqrt_evalI [of "3150 + 1 / 2 ^ 41" 7898871943510869] by simp

lemma dsi_b: "binary64 (5135520552479447 / 2 ^ 58 - 2436687583403663 / 2 ^ 57) = 262145385672121 / 2 ^ 58"
  using binary64_evalI [of "- 11" "5135520552479447 / 2 ^ 58 - 2436687583403663 / 2 ^ 57" 8388652341507872]
  by (simp add: abs_less_iff)

lemma liq_b: "binary64 (1 / (262145385672121 / 2 ^ 58)) = 1208919429363661 / 2 ^ 40"
  using binary64_evalI [of 10 "1 / (262145385672121 / 2 ^ 58)" 4835677717454644]
  by (simp add: abs_less_iff)

lemma ds_b: "binary64 (7898871943510869 / 2 ^ 47 - 7246272469782563 / 2 ^ 47) = 326299736864153 / 2 ^ 46"
  using binary64_evalI [of 2 "7898871943510869 / 2 ^ 47 - 7246272469782563 / 2 ^ 47" 5220795789826448]
  by (simp add: abs_less_iff)

lemma res_b: "binary64 ((1208919429363661 / 2 ^ 40) * (326299736864153 / 2 ^ 46)) = 5605757162517827 / 2 ^ 40"
  using binary64_evalI [of 12 "(1208919429363661 / 2 ^ 40) * (326299736864153 / 2 ^ 46)" 5605757162517827]
  by (simp add: abs_less_iff)

lemma sqrt_d_3200: "binary64 (sqrt 3200) = 124395540479019 / 2 ^ 41"
  using binary64_sqrt_evalI [of 3200 7961314590657216] by simp

lemma recip_d_124395540479019_2p41: "binary64 (1 / (124395540479019 / 2 ^ 41)) = 2547620669010309 / 2 ^ 57"
  using binary64_evalI [of "- 6" "1 / (124395540479019 / 2 ^ 41)" 5095241338020618]
  by (simp add: abs_less_iff)

lemma dsi_c: "binary64 (2547620669010309 / 2 ^ 57 - 2436687583403663 / 2 ^ 57) = 55466542803323 / 2 ^ 56"
  using binary64_evalI [of "- 11" "2547620669010309 / 2 ^ 57 - 2436687583403663 / 2 ^ 57" 7099717478825344]
  by (simp add: abs_less_iff)

lemma liq_c: "binary64 (1 / (55466542803323 / 2 ^ 56)) = 1428395542790487 / 2 ^ 40"
  using binary64_evalI [of 10 "1 / (55466542803323 / 2 ^ 56)" 5713582171161948]
  by (simp add: abs_less_iff)

lemma ds_c: "binary64 (124395540479019 / 2 ^ 41 - 7246272469782563 / 2 ^ 47) = 715042120874653 / 2 ^ 47"
  using binary64_evalI [of 2 "124395540479019 / 2 ^ 41 - 7246272469782563 / 2 ^ 47" 5720336966997224]
  by (simp add: abs_less_iff)

lemma res_c: "binary64 ((1428395542790487 / 2 ^ 40) * (715042120874653 / 2 ^ 47)) = 907152556064271 / 2 ^ 37"
  using binary64_evalI [of 12 "(1428395542790487 / 2 ^ 40) * (715042120874653 / 2 ^ 47)" 7257220448514168]
  by (simp add: abs_less_iff)

lemma sqrt_d_3600: "binary64 (sqrt 3600) = 60"
  using binary64_sqrt_evalI [of 3600 8444249301319680] by simp

lemma recip_d_60: "binary64 (1 / 60) = 4803839602528529 / 2 ^ 58"
  using binary64_evalI [of "- 6" "1 / 60" 4803839602528529]
  by (simp add: abs_less_iff)

lemma dsi_d: "binary64 (5135520552479447 / 2 ^ 58 - 4803839602528529 / 2 ^ 58) = 165840474975459 / 2 ^ 57"
  using binary64_evalI [of "- 10" "5135520552479447 / 2 ^ 58 - 4803839602528529 / 2 ^ 58" 5306895199214688]
  by (simp add: abs_less_iff)

lemma liq_d: "binary64 (1 / (165840474975459 / 2 ^ 57)) = 3821897520541399 / 2 ^ 42"
  using binary64_evalI [of 9 "1 / (165840474975459 / 2 ^ 57)" 7643795041082798]
  by (simp add: abs_less_iff)

lemma ds_d: "binary64 (7898871943510869 / 2 ^ 47 - 7246272469782563 / 2 ^ 47) = 326299736864153 / 2 ^ 46"
  using binary64_evalI [of 2 "7898871943510869 / 2 ^ 47 - 7246272469782563 / 2 ^ 47" 5220795789826448]
  by (simp add: abs_less_iff)

lemma res_d: "binary64 ((3821897520541399 / 2 ^ 42) * (326299736864153 / 2 ^ 46)) = 2215266468529395 / 2 ^ 39"
  using binary64_evalI [of 11 "(3821897520541399 / 2 ^ 42) * (326299736864153 / 2 ^ 46)" 8861065874117580]
  by (simp add: abs_less_iff)

lemma sqrt_d_2500: "binary64 (sqrt 2500) = 50"
  using binary64_sqrt_evalI [of 2500 7036874417766400] by simp

lemma dsi_e: "binary64 (5135520552479447 / 2 ^ 58 - 2436687583403663 / 2 ^ 57) = 262145385672121 / 2 ^ 58"
  using binary64_evalI [of "- 11" "5135520552479447 / 2 ^ 58 - 2436687583403663 / 2 ^ 57" 8388652341507872]
  by (simp add: abs_less_iff)

lemma liq_e: "binary64 (1 / (262145385672121 / 2 ^ 58)) = 1208919429363661 / 2 ^ 40"
  using binary64_evalI [of 10 "1 / (262145385672121 / 2 ^ 58)" 4835677717454644]
  by (simp add: abs_less_iff)

lemma ds_e: "binary64 (7898871943510869 / 2 ^ 47 - 50) = 861997525744469 / 2 ^ 47"
  using binary64_evalI [of 2 "7898871943510869 / 2 ^ 47 - 50" 6895980205955752]
  by (simp add: abs_less_iff)

lemma res_e: "binary64 ((1208919429363661 / 2 ^ 40) * (861997525744469 / 2 ^ 47)) = 7404463225213157 / 2 ^ 40"
  using binary64_evalI [of 12 "(1208919429363661 / 2 ^ 40) * (861997525744469 / 2 ^ 47)" 7404463225213157]
  by (simp add: abs_less_iff)

lemma calc_a: "calc_usdt_for_eth_in_pool_fl binary64 3150 2651 3498 1 = Inr (5605757162517827 / 2 ^ 40)"
  unfolding calc_usdt_for_eth_in_pool_fl_def delta_sqrt_inv_fl_def Let_def
    sqrt_d_3150
    sqrt_d_2651
    sqrt_d_3498
    recip_d_7898871943510869_2p47
    recip_d_8323762858150403_2p47
    dsi_a
    liq_a
    ds_a
    res_a
  by simp

lemma calc_b: "calc_usdt_for_eth_in_pool_fl binary64 (3150 + 1 / 2 ^ 41) 2651 3498 1 = Inr (5605757162517827 / 2 ^ 40)"
  unfolding calc_usdt_for_eth_in_pool_fl_def delta_sqrt_inv_fl_def Let_def
    sqrt_d_3150plus1_2p41
    sqrt_d_2651
    sqrt_d_3498
    recip_d_7898871943510869_2p47
    recip_d_8323762858150403_2p47
    dsi_b
    liq_b
    ds_b
    res_b
  by simp

lemma calc_c: "calc_usdt_for_eth_in_pool_fl binary64 3200 2651 3498 1 = Inr (907152556064271 / 2 ^ 37)"
  unfolding calc_usdt_for_eth_in_pool_fl_def delta_sqrt_inv_fl_def Let_def
    sqrt_d_3200
    sqrt_d_2651
    sqrt_d_3498
    recip_d_124395540479019_2p41
    recip_d_8323762858150403_2p47
    dsi_c
    liq_c
    ds_c
    res_c
  by simp

lemma calc_d: "calc_usdt_for_eth_in_pool_fl binary64 3150 2651 3600 1 = Inr (2215266468529395 / 2 ^ 39)"
  unfolding calc_usdt_for_eth_in_pool_fl_def delta_sqrt_inv_fl_def Let_def
    sqrt_d_3150
    sqrt_d_2651
    sqrt_d_3600
    recip_d_7898871943510869_2p47
    recip_d_60
    dsi_d
    liq_d
    ds_d
    res_d
  by simp

lemma calc_e: "calc_usdt_for_eth_in_pool_fl binary64 3150 2500 3498 1 = Inr (7404463225213157 / 2 ^ 40)"
  unfolding calc_usdt_for_eth_in_pool_fl_def delta_sqrt_inv_fl_def Let_def
    sqrt_d_3150
    sqrt_d_2500
    sqrt_d_3498
    recip_d_7898871943510869_2p47
    recip_d_8323762858150403_2p47
    dsi_e
    liq_e
    ds_e
    res_e
  by simp

lemma calc_usdt_fl_Inr:
  assumes "rounding rnd"
    and "calc_usdt_for_eth_in_pool_fl rnd price lower upper eth_in_pool = Inr y"
  shows "0 \<le> lower" "lower < price" "price < upper" "0 < eth_in_pool"
    and "0 < delta_sqrt_inv_fl rnd price upper"
    and "y = rnd (rnd (eth_in_pool / delta_sqrt_inv_fl rnd price upper)
                 * rnd (rnd (sqrt price) - rnd (sqrt lower)))"
proof -
  show h: "0 \<le> lower" "lower < price" "price < upper" "0 < eth_in_pool"
    using assms(2) by (auto simp: calc_usdt_for_eth_in_pool_fl_def split: if_splits)
  note c = calc_usdt_fl_closed [OF assms(1) h]
  have nz: "delta_sqrt_inv_fl rnd price upper \<noteq> 0"
    using assms(2) unfolding c(3) by (auto split: if_splits)
  then show "0 < delta_sqrt_inv_fl rnd price upper" using c(1) by simp
  show "y = rnd (rnd (eth_in_pool / delta_sqrt_inv_fl rnd price upper)
                 * rnd (rnd (sqrt price) - rnd (sqrt lower)))"
    using assms(2) nz unfolding c(3) by simp
qed

lemma liquidity_product_mono:
  assumes "rounding rnd" "0 < e" "0 < d2" "d2 \<le> d1" "0 \<le> s1" "s1 \<le> s2"
  shows "rnd (rnd (e / d1) * s1) \<le> rnd (rnd (e / d2) * s2)"
proof -
  have "e / d1 \<le> e / d2" using assms(2-4) by (simp add: frac_le)
  then have l: "rnd (e / d1) \<le> rnd (e / d2)" by (rule rounding_mono [OF assms(1)])
  have "0 \<le> e / d1" using assms(2-4) by simp
  then have n: "0 \<le> rnd (e / d1)" by (rule rounding_nonneg [OF assms(1)])
  have "rnd (e / d1) * s1 \<le> rnd (e / d2) * s2"
    using l n assms(5,6) by (intro mult_mono) linarith+
  then show ?thesis by (rule rounding_mono [OF assms(1)])
qed

lemma recip_sqrt_antimono:
  assumes "rounding rnd" "0 < a" "a \<le> b"
  shows "rnd (1 / rnd (sqrt b)) \<le> rnd (1 / rnd (sqrt a))"
proof -
  have "0 < rnd (sqrt a)" "rnd (sqrt a) \<le> rnd (sqrt b)"
    using rounding_sqrt_pos [OF assms(1,2)] rounding_sqrt_mono [OF assms(1,3)] by blast+
  then have "1 / rnd (sqrt b) \<le> 1 / rnd (sqrt a)" by (simp add: frac_le)
  then show ?thesis by (rule rounding_mono [OF assms(1)])
qed

text \<open>
  The required complementary amount is the same at the price 3150 and at the next double
  above it: the two square roots round to the same double.
\<close>

theorem calc_usdt_not_strict_counterexample:
  "calc_usdt_for_eth_in_pool_fl binary64 3150 2651 3498 1 = Inr (5605757162517827 / 2 ^ 40)
   \<and> calc_usdt_for_eth_in_pool_fl binary64 (3150 + 1 / 2 ^ 41) 2651 3498 1
       = Inr (5605757162517827 / 2 ^ 40)"
  using calc_a calc_b by simp

section \<open>Monotonicity of the required complementary amount in double arithmetic\<close>

text \<open>
  Claim C6, amended. For a positive amount (at most \<open>2\<^sup>4\<^sup>0\<^sup>0\<close>, so that the liquidity stays
  finite), wherever \<open>calc_usdt_for_eth_in_pool\<close> returns at both arguments, the result
  does not decrease when the price rises, does not increase when the upper bound rises,
  and does not decrease when the lower bound falls, the other two parameters held
  fixed. The monotonicity is not strict: neighbouring arguments can give the same
  amount.
\<close>

theorem calc_usdt_fl_monotone:
  assumes "rounding rnd" "eth_in_pool \<le> 2 ^ 400"
  shows "(p1 \<le> p2
          \<and> calc_usdt_for_eth_in_pool_fl rnd p1 lower upper eth_in_pool = Inr y1
          \<and> calc_usdt_for_eth_in_pool_fl rnd p2 lower upper eth_in_pool = Inr y2
          \<longrightarrow> y1 \<le> y2)
     \<and> (u1 \<le> u2
          \<and> calc_usdt_for_eth_in_pool_fl rnd price lower u1 eth_in_pool = Inr z1
          \<and> calc_usdt_for_eth_in_pool_fl rnd price lower u2 eth_in_pool = Inr z2
          \<longrightarrow> z2 \<le> z1)
     \<and> (l2 \<le> l1
          \<and> calc_usdt_for_eth_in_pool_fl rnd price l1 upper eth_in_pool = Inr w1
          \<and> calc_usdt_for_eth_in_pool_fl rnd price l2 upper eth_in_pool = Inr w2
          \<longrightarrow> w1 \<le> w2)"
proof (intro conjI impI)
  assume a: "p1 \<le> p2
          \<and> calc_usdt_for_eth_in_pool_fl rnd p1 lower upper eth_in_pool = Inr y1
          \<and> calc_usdt_for_eth_in_pool_fl rnd p2 lower upper eth_in_pool = Inr y2"
  note c1 = calc_usdt_fl_Inr [OF assms(1) a [THEN conjunct2, THEN conjunct1]]
  note c2 = calc_usdt_fl_Inr [OF assms(1) a [THEN conjunct2, THEN conjunct2]]
  have p: "0 < p1" "p1 \<le> p2" using c1 a by linarith+
  have "rnd (1 / rnd (sqrt p2)) \<le> rnd (1 / rnd (sqrt p1))"
    using p by (intro recip_sqrt_antimono [OF assms(1)])
  then have d: "delta_sqrt_inv_fl rnd p2 upper \<le> delta_sqrt_inv_fl rnd p1 upper"
    unfolding delta_sqrt_inv_fl_def by (intro rounding_mono [OF assms(1)]) simp
  have s1: "0 \<le> rnd (rnd (sqrt p1) - rnd (sqrt lower))"
    using c1 by (intro rounding_sqrt_diff [OF assms(1)]) simp
  have s2: "rnd (rnd (sqrt p1) - rnd (sqrt lower)) \<le> rnd (rnd (sqrt p2) - rnd (sqrt lower))"
    using rounding_sqrt_mono [OF assms(1) p(2)] by (intro rounding_mono [OF assms(1)]) simp
  show "y1 \<le> y2"
    unfolding c1(6) c2(6)
    using c1(4) c2(5) d s1 s2 by (intro liquidity_product_mono [OF assms(1)])
next
  assume a: "u1 \<le> u2
          \<and> calc_usdt_for_eth_in_pool_fl rnd price lower u1 eth_in_pool = Inr z1
          \<and> calc_usdt_for_eth_in_pool_fl rnd price lower u2 eth_in_pool = Inr z2"
  note c1 = calc_usdt_fl_Inr [OF assms(1) a [THEN conjunct2, THEN conjunct1]]
  note c2 = calc_usdt_fl_Inr [OF assms(1) a [THEN conjunct2, THEN conjunct2]]
  have u: "0 < u1" "u1 \<le> u2" using c1 a by linarith+
  have "rnd (1 / rnd (sqrt u2)) \<le> rnd (1 / rnd (sqrt u1))"
    using u by (intro recip_sqrt_antimono [OF assms(1)])
  then have d: "delta_sqrt_inv_fl rnd price u1 \<le> delta_sqrt_inv_fl rnd price u2"
    unfolding delta_sqrt_inv_fl_def by (intro rounding_mono [OF assms(1)]) simp
  have s: "0 \<le> rnd (rnd (sqrt price) - rnd (sqrt lower))"
    using c1 by (intro rounding_sqrt_diff [OF assms(1)]) simp
  show "z2 \<le> z1"
    unfolding c1(6) c2(6)
    using c1(4) c1(5) d s by (intro liquidity_product_mono [OF assms(1)]) simp_all
next
  assume a: "l2 \<le> l1
          \<and> calc_usdt_for_eth_in_pool_fl rnd price l1 upper eth_in_pool = Inr w1
          \<and> calc_usdt_for_eth_in_pool_fl rnd price l2 upper eth_in_pool = Inr w2"
  note c1 = calc_usdt_fl_Inr [OF assms(1) a [THEN conjunct2, THEN conjunct1]]
  note c2 = calc_usdt_fl_Inr [OF assms(1) a [THEN conjunct2, THEN conjunct2]]
  have s1: "0 \<le> rnd (rnd (sqrt price) - rnd (sqrt l1))"
    using c1 by (intro rounding_sqrt_diff [OF assms(1)]) simp
  have "l2 \<le> l1" using a by blast
  then have s2: "rnd (rnd (sqrt price) - rnd (sqrt l1)) \<le> rnd (rnd (sqrt price) - rnd (sqrt l2))"
    using rounding_sqrt_mono [OF assms(1), of l2 l1] by (intro rounding_mono [OF assms(1)]) simp
  show "w1 \<le> w2"
    unfolding c1(6) c2(6)
    using c1(4) c1(5) s1 s2 by (intro liquidity_product_mono [OF assms(1)]) simp_all
qed

theorem calc_usdt_fl_monotone_witness:
  "calc_usdt_for_eth_in_pool_fl binary64 3150 2651 3498 1 = Inr (5605757162517827 / 2 ^ 40)
   \<and> calc_usdt_for_eth_in_pool_fl binary64 3200 2651 3498 1 = Inr (907152556064271 / 2 ^ 37)
   \<and> calc_usdt_for_eth_in_pool_fl binary64 3150 2651 3600 1 = Inr (2215266468529395 / 2 ^ 39)
   \<and> calc_usdt_for_eth_in_pool_fl binary64 3150 2500 3498 1 = Inr (7404463225213157 / 2 ^ 40)
   \<and> (5605757162517827 / 2 ^ 40 :: real) \<le> 907152556064271 / 2 ^ 37
   \<and> (2215266468529395 / 2 ^ 39 :: real) \<le> 5605757162517827 / 2 ^ 40
   \<and> (5605757162517827 / 2 ^ 40 :: real) \<le> 7404463225213157 / 2 ^ 40"
proof -
  have e: "(1::real) \<le> 2 ^ 400" by simp
  note m = calc_usdt_fl_monotone [OF rounding_binary64 e]
  have "(3150::real) \<le> 3200
      \<and> calc_usdt_for_eth_in_pool_fl binary64 3150 2651 3498 1 = Inr (5605757162517827 / 2 ^ 40)
      \<and> calc_usdt_for_eth_in_pool_fl binary64 3200 2651 3498 1 = Inr (907152556064271 / 2 ^ 37)"
    using calc_a calc_c by simp
  from m [THEN conjunct1, THEN mp, OF this]
  have 1: "(5605757162517827 / 2 ^ 40 :: real) \<le> 907152556064271 / 2 ^ 37" .
  have "(3498::real) \<le> 3600
      \<and> calc_usdt_for_eth_in_pool_fl binary64 3150 2651 3498 1 = Inr (5605757162517827 / 2 ^ 40)
      \<and> calc_usdt_for_eth_in_pool_fl binary64 3150 2651 3600 1 = Inr (2215266468529395 / 2 ^ 39)"
    using calc_a calc_d by simp
  from m [THEN conjunct2, THEN conjunct1, THEN mp, OF this]
  have 2: "(2215266468529395 / 2 ^ 39 :: real) \<le> 5605757162517827 / 2 ^ 40" .
  have "(2500::real) \<le> 2651
      \<and> calc_usdt_for_eth_in_pool_fl binary64 3150 2651 3498 1 = Inr (5605757162517827 / 2 ^ 40)
      \<and> calc_usdt_for_eth_in_pool_fl binary64 3150 2500 3498 1 = Inr (7404463225213157 / 2 ^ 40)"
    using calc_a calc_e by simp
  from m [THEN conjunct2, THEN conjunct2, THEN mp, OF this]
  have 3: "(5605757162517827 / 2 ^ 40 :: real) \<le> 7404463225213157 / 2 ^ 40" .
  show ?thesis using calc_a calc_c calc_d calc_e 1 2 3 by (intro conjI)
qed

lemma sqrt_d_2000: "binary64 (sqrt 2000) = 3146985909450985 / 2 ^ 46"
  using binary64_sqrt_evalI [of 2000 6293971818901970] by simp

lemma sqrt_d_2200: "binary64 (sqrt 2200) = 6601173333797969 / 2 ^ 47"
  using binary64_sqrt_evalI [of 2200 6601173333797969] by simp

lemma sqrt_d_1800: "binary64 (sqrt 1800) = 373186621437057 / 2 ^ 43"
  using binary64_sqrt_evalI [of 1800 5970985942992912] by simp

lemma vpl_two: "binary64 (2 * (3146985909450985 / 2 ^ 46)) = 3146985909450985 / 2 ^ 45"
  using binary64_evalI [of 6 "2 * (3146985909450985 / 2 ^ 46)" 6293971818901970]
  by (simp add: abs_less_iff)

lemma vpl_quot: "binary64 (2000 / (6601173333797969 / 2 ^ 47)) = 3000533333544531 / 2 ^ 46"
  using binary64_evalI [of 5 "2000 / (6601173333797969 / 2 ^ 47)" 6001066667089062]
  by (simp add: abs_less_iff)

lemma vpl_d1: "binary64 (3146985909450985 / 2 ^ 45 - 3000533333544531 / 2 ^ 46) = 3293438485357439 / 2 ^ 46"
  using binary64_evalI [of 5 "3146985909450985 / 2 ^ 45 - 3000533333544531 / 2 ^ 46" 6586876970714878]
  by (simp add: abs_less_iff)

lemma vpl_d2: "binary64 (3293438485357439 / 2 ^ 46 - 373186621437057 / 2 ^ 43) = 307945513860983 / 2 ^ 46"
  using binary64_evalI [of 2 "3293438485357439 / 2 ^ 46 - 373186621437057 / 2 ^ 43" 4927128221775728]
  by (simp add: abs_less_iff)

lemma vpl_L: "binary64 (100000 / (307945513860983 / 2 ^ 46)) = 6281245299311639 / 2 ^ 38"
  using binary64_evalI [of 14 "100000 / (307945513860983 / 2 ^ 46)" 6281245299311639]
  by (simp add: abs_less_iff)

lemma vpl_2000: "value_per_L_fl binary64 2000 1800 2200 = 307945513860983 / 2 ^ 46"
  unfolding value_per_L_fl_def
    sqrt_d_2000 sqrt_d_2200 sqrt_d_1800 vpl_two vpl_quot vpl_d1 vpl_d2
  by simp

theorem degenerate_guards_fl_witness:
  "0 \<le> delta_sqrt_inv_fl binary64 3150 3498
   \<and> calc_usdt_for_eth_in_pool_fl binary64 3150 2651 3498 1 = Inr (5605757162517827 / 2 ^ 40)
   \<and> value_per_L_fl binary64 2000 1800 2200 = 307945513860983 / 2 ^ 46
   \<and> L_from_initial_usd_fl binary64 2000 1800 2200 100000 = Inr (6281245299311639 / 2 ^ 38)
   \<and> (0::real) \<le> 6281245299311639 / 2 ^ 38"
proof -
  note g = degenerate_guards_fl [OF rounding_binary64]
  have h1: "(0::real) \<le> 2651 \<and> (2651::real) < 3150 \<and> (3150::real) < 3498 \<and> (0::real) < 1
      \<and> (1::real) \<le> 2 ^ 400"
    by simp
  note a = g [THEN conjunct1, THEN mp, OF h1]
  have h2: "(0::real) \<le> 1800 \<and> (1800::real) < 2000 \<and> (2000::real) < 2200 \<and> (0::real) < 100000"
    by simp
  note b = g [THEN conjunct2, THEN mp, OF h2]
  have p: "0 < value_per_L_fl binary64 2000 1800 2200"
    unfolding vpl_2000 by simp
  have "L_from_initial_usd_fl binary64 2000 1800 2200 100000
      = Inr (binary64 (100000 / value_per_L_fl binary64 2000 1800 2200))"
    using b [THEN conjunct2, THEN conjunct1] p by simp
  then have l: "L_from_initial_usd_fl binary64 2000 1800 2200 100000 = Inr (6281245299311639 / 2 ^ 38)"
    unfolding vpl_2000 vpl_L .
  have "0 \<le> binary64 (100000 / value_per_L_fl binary64 2000 1800 2200)"
    using b [THEN conjunct2, THEN conjunct2, THEN mp, OF p] .
  then have n: "(0::real) \<le> 6281245299311639 / 2 ^ 38"
    unfolding vpl_2000 vpl_L .
  show ?thesis
    using a [THEN conjunct2, THEN conjunct1] calc_a vpl_2000 l n by (intro conjI)
qed


end
